theory Spec2Isabelle
  imports Complex_Main
begin

section \<open>Python values and exceptions\<close>

text \<open>
  The program is \<^verbatim>\<open>Option_pricer.py\<close>. Its numbers are Python floats; they are
  modelled as the real numbers they stand for, so rounding, overflow, underflow,
  infinities and not-a-number are outside the model. The theorems about the program are
  therefore those that do not depend on them: the degenerate branch, the choice of the
  branch, the input loop, and the first exception of the standard branch at a zero spot
  price. Every exception the source can raise on real arguments is a value of
  \<open>py_error\<close>, and a function that can raise returns \<open>py_error + 'a\<close> with \<open>Inl\<close> for the
  exception.
\<close>

datatype py_error = ValueError | ZeroDivisionError | EOFError

definition bind_err :: "py_error + 'a \<Rightarrow> ('a \<Rightarrow> py_error + 'b) \<Rightarrow> py_error + 'b" where
  "bind_err m f = (case m of Inl e \<Rightarrow> Inl e | Inr v \<Rightarrow> f v)"

text \<open>Python's \<^verbatim>\<open>a / b\<close> on floats raises ZeroDivisionError when \<^verbatim>\<open>b == 0\<close>.\<close>

definition py_truediv :: "real \<Rightarrow> real \<Rightarrow> py_error + real" where
  "py_truediv a b = (if b = 0 then Inl ZeroDivisionError else Inr (a / b))"

text \<open>\<^verbatim>\<open>math.log(x)\<close> raises ValueError (math domain error) when \<^verbatim>\<open>x <= 0\<close>.\<close>

definition math_log :: "real \<Rightarrow> py_error + real" where
  "math_log x = (if x \<le> 0 then Inl ValueError else Inr (ln x))"

text \<open>\<^verbatim>\<open>math.sqrt(x)\<close> raises ValueError (math domain error) when \<^verbatim>\<open>x < 0\<close>.\<close>

definition math_sqrt :: "real \<Rightarrow> py_error + real" where
  "math_sqrt x = (if x < 0 then Inl ValueError else Inr (sqrt x))"

section \<open>The standard normal distribution function\<close>

text \<open>
  Modelled from the spec: \<^verbatim>\<open>scipy.stats.norm.cdf\<close> is a library primitive that the
  repository imports and does not define; the spec calls it the standard normal CDF
  \<open>N\<close>, the probability that a standard normal variable is at most \<open>x\<close>. That
  probability is one half plus the integral of the density \<open>exp (- t\<^sup>2 / 2) / sqrt (2 * pi)\<close>
  from \<open>0\<close> to \<open>x\<close>, and \<open>norm_cdf\<close> is defined so:

  \<^item> \<open>gauss_int x\<close> is the integral of \<open>exp (- t\<^sup>2 / 2)\<close> from \<open>0\<close> to \<open>x\<close>, as its
    power series, the sum over \<open>k\<close> of
    \<open>(- 1 / 2) ^ k * x ^ (2 * k + 1) / (k! * (2 * k + 1))\<close>; lemmas \<open>DERIV_gauss_int\<close>
    and \<open>gauss_int_0\<close> show that it is that integral;
  \<^item> \<open>norm_pdf\<close> is the density and \<open>norm_cdf\<close> the distribution function.

  The lemmas show that \<open>norm_cdf\<close> has the derivative \<open>norm_pdf\<close>, increases from the
  limit \<open>0\<close> to the limit \<open>1\<close>, and satisfies \<open>norm_cdf (- x) = 1 - norm_cdf x\<close>.
\<close>

definition gauss_coeff :: "nat \<Rightarrow> real" where
  "gauss_coeff n =
     (if even n then 0 else (- 1 / 2) ^ ((n - 1) div 2) / (fact ((n - 1) div 2) * real n))"

definition gauss_int :: "real \<Rightarrow> real" where
  "gauss_int x = (\<Sum>n. gauss_coeff n * x ^ n)"

definition norm_pdf :: "real \<Rightarrow> real" where
  "norm_pdf x = exp (- (x\<^sup>2) / 2) / sqrt (2 * pi)"

definition norm_cdf :: "real \<Rightarrow> real" where
  "norm_cdf x = 1 / 2 + gauss_int x / sqrt (2 * pi)"

text \<open>
  Devices of the proofs. \<open>gauss_half\<close> is the least upper bound of \<open>gauss_int\<close>, the
  integral of \<open>exp (- t\<^sup>2 / 2)\<close> over the positive half line; it is shown to be
  \<open>sqrt (pi / 2)\<close>. \<open>cos_int k x\<close> is the integral of \<open>cos t ^ k\<close> from \<open>0\<close> to \<open>x\<close>,
  by the reduction formula, and \<open>wallis k\<close> its value at \<open>pi / 2\<close>.
\<close>

definition gauss_half :: real where
  "gauss_half = (SUP x. gauss_int x)"

fun cos_int :: "nat \<Rightarrow> real \<Rightarrow> real" where
  "cos_int 0 x = x"
| "cos_int (Suc 0) x = sin x"
| "cos_int (Suc (Suc k)) x = (cos x ^ Suc k * sin x + real (Suc k) * cos_int k x) / real (Suc (Suc k))"

definition wallis :: "nat \<Rightarrow> real" where
  "wallis k = cos_int k (pi / 2)"

section \<open>The pricer\<close>

text \<open>
  \<^verbatim>\<open>black_scholes_merton(S, K, T, r, sigma)\<close>, lines 6 to 49. The guard
  \<^verbatim>\<open>if T <= 0:\<close> of line 21 chooses between two blocks: \<open>branch_taken\<close> is the
  guard, \<open>expired_prices\<close> the block of lines 22 to 29 and \<open>formula_prices\<close> the block
  of lines 31 to 49.

  In line 32 Python evaluates \<^verbatim>\<open>S / K\<close>, then \<^verbatim>\<open>math.log\<close> of it, then the rest of
  the numerator, then the denominator \<^verbatim>\<open>sigma * math.sqrt(T)\<close>, then the division;
  the first of these to raise decides the exception.

  In \<open>formula_prices\<close> the floats are the real numbers they stand for. No operation
  rounds, \<^verbatim>\<open>math.exp\<close> and \<^verbatim>\<open>**\<close> never raise OverflowError, and no quotient or
  product underflows to zero, whereas the program's double arithmetic does all of this.
  So \<open>formula_prices\<close> is exact about which branch runs and about the exceptions of
  line 32 that do not depend on the size of the numbers (a zero divisor, a logarithm of
  zero), and these are the only facts about it that the theorems of this file use. The
  values it returns are those of the formulas over the reals, not the program's rounded
  results, and no theorem about the program is drawn from them.
\<close>

datatype branch = Degenerate | Standard

definition branch_taken :: "real \<Rightarrow> branch" where
  "branch_taken T = (if T \<le> 0 then Degenerate else Standard)"

definition expired_prices :: "real \<Rightarrow> real \<Rightarrow> py_error + real \<times> real" where
  "expired_prices S K =
     (if S > K then
        (let call_price = S - K; put_price = 0 in Inr (call_price, put_price))
      else
        (let call_price = 0; put_price = K - S in Inr (call_price, put_price)))"

definition formula_prices ::
    "real \<Rightarrow> real \<Rightarrow> real \<Rightarrow> real \<Rightarrow> real \<Rightarrow> py_error + real \<times> real" where
  "formula_prices S K T r sigma =
     bind_err (py_truediv S K) (\<lambda>ratio.
     bind_err (math_log ratio) (\<lambda>log_ratio.
     bind_err (math_sqrt T) (\<lambda>sqrt_T.
     bind_err (py_truediv (log_ratio + (r + 0.5 * sigma\<^sup>2) * T) (sigma * sqrt_T)) (\<lambda>d1.
     bind_err (math_sqrt T) (\<lambda>sqrt_T'.
       let d2 = d1 - sigma * sqrt_T';
           Nd1 = norm_cdf d1;
           Nd2 = norm_cdf d2;
           N_neg_d1 = norm_cdf (- d1);
           N_neg_d2 = norm_cdf (- d2);
           call_price = S * Nd1 - K * exp (- r * T) * Nd2;
           put_price = K * exp (- r * T) * N_neg_d2 - S * N_neg_d1
       in Inr (call_price, put_price))))))"

definition black_scholes_merton ::
    "real \<Rightarrow> real \<Rightarrow> real \<Rightarrow> real \<Rightarrow> real \<Rightarrow> py_error + real \<times> real" where
  "black_scholes_merton S K T r sigma =
     (case branch_taken T of
        Degenerate \<Rightarrow> expired_prices S K
      | Standard \<Rightarrow> formula_prices S K T r sigma)"

text \<open>
  The formulas of the spec, section 4.1, steps 1 to 5 of the standard branch, written
  from its words, over the real numbers.
\<close>

definition spec_d1 :: "real \<Rightarrow> real \<Rightarrow> real \<Rightarrow> real \<Rightarrow> real \<Rightarrow> real" where
  "spec_d1 S K T r sigma = (ln (S / K) + (r + 0.5 * sigma\<^sup>2) * T) / (sigma * sqrt T)"

definition spec_d2 :: "real \<Rightarrow> real \<Rightarrow> real \<Rightarrow> real \<Rightarrow> real \<Rightarrow> real" where
  "spec_d2 S K T r sigma = spec_d1 S K T r sigma - sigma * sqrt T"

definition spec_call :: "real \<Rightarrow> real \<Rightarrow> real \<Rightarrow> real \<Rightarrow> real \<Rightarrow> real" where
  "spec_call S K T r sigma =
     S * norm_cdf (spec_d1 S K T r sigma) - K * exp (- r * T) * norm_cdf (spec_d2 S K T r sigma)"

definition spec_put :: "real \<Rightarrow> real \<Rightarrow> real \<Rightarrow> real \<Rightarrow> real \<Rightarrow> real" where
  "spec_put S K T r sigma =
     K * exp (- r * T) * norm_cdf (- spec_d2 S K T r sigma) - S * norm_cdf (- spec_d1 S K T r sigma)"

text \<open>
  A device of the proofs: for \<open>A\<close>, \<open>B\<close> and \<open>v\<close> positive, the function
  \<open>\<lambda>d. A * norm_cdf d - B * norm_cdf (d - v)\<close> has its greatest value at \<open>dmax A B v\<close>,
  and \<open>bs_opt A B v\<close> is that value. \<open>spec_call\<close> is \<open>bs_opt\<close> of the spot and the
  discounted strike, and \<open>spec_put\<close> is \<open>bs_opt\<close> of the discounted strike and the spot.
\<close>

definition dmax :: "real \<Rightarrow> real \<Rightarrow> real \<Rightarrow> real" where
  "dmax A B v = (ln (A / B) + v\<^sup>2 / 2) / v"

definition bs_opt :: "real \<Rightarrow> real \<Rightarrow> real \<Rightarrow> real" where
  "bs_opt A B v = A * norm_cdf (dmax A B v) - B * norm_cdf (dmax A B v - v)"

section \<open>The interactive shell\<close>

text \<open>
  The console is the list of lines still to be read from standard input and the list of
  texts written to standard output so far. \<^verbatim>\<open>input(prompt)\<close> writes the prompt and
  takes the next line, and raises EOFError when there is none; \<^verbatim>\<open>print(s)\<close> writes
  \<open>s\<close> and a newline. An operation on the console returns its result, or the exception
  it raised, with the lines left and the output.
\<close>

type_synonym 'a io = "string list \<Rightarrow> string list \<Rightarrow> (py_error + 'a) \<times> string list \<times> string list"

definition io_return :: "'a \<Rightarrow> 'a io" where
  "io_return v inp out = (Inr v, inp, out)"

definition io_bind :: "'a io \<Rightarrow> ('a \<Rightarrow> 'b io) \<Rightarrow> 'b io" where
  "io_bind m f inp out =
     (case m inp out of
        (Inl e, inp', out') \<Rightarrow> (Inl e, inp', out')
      | (Inr v, inp', out') \<Rightarrow> f v inp' out')"

definition py_print :: "string \<Rightarrow> unit io" where
  "py_print s inp out = (Inr (), inp, out @ [s @ [CHR 0x0A]])"

text \<open>
  \<^verbatim>\<open>get_user_input(prompt, value_type=float, min_val=0.0)\<close>, lines 53 to 65. The
  conversion \<open>value_type\<close> is the source's parameter; it returns the value or the
  exception it raises, and only ValueError is caught (line 64). \<open>str\<close> is the text
  Python's f-string of line 61 gives for \<^verbatim>\<open>{min_val}\<close>. One pass of the
  \<^verbatim>\<open>while True\<close> loop reads one line, so the loop is a recursion on the lines.
\<close>

fun get_user_input ::
    "string \<Rightarrow> (string \<Rightarrow> py_error + 'a) \<Rightarrow> ('a::ord) \<Rightarrow> ('a \<Rightarrow> string) \<Rightarrow> 'a io" where
  "get_user_input prompt value_type min_val str [] out = (Inl EOFError, [], out @ [prompt])"
| "get_user_input prompt value_type min_val str (line # inp) out =
     (case value_type line of
        Inr v \<Rightarrow>
          if v < min_val then
            get_user_input prompt value_type min_val str inp
              (out @ [prompt, ''Error: Value must be at least '' @ str min_val @ ''.'' @ [CHR 0x0A]])
          else (Inr v, inp, out @ [prompt])
      | Inl e \<Rightarrow>
          if e = ValueError then
            get_user_input prompt value_type min_val str inp
              (out @ [prompt, ''Error: Invalid input. Please enter a number.'' @ [CHR 0x0A]])
          else (Inl e, inp, out @ [prompt]))"

text \<open>
  The builtins of Python that \<^verbatim>\<open>main\<close> uses on floats: \<^verbatim>\<open>float(text)\<close>, the
  text of a float in an f-string, and the formats \<^verbatim>\<open>:.2f\<close> and \<^verbatim>\<open>:.4f\<close>.
\<close>

record builtins =
  py_float :: "string \<Rightarrow> py_error + real"
  py_str :: "real \<Rightarrow> string"
  format_2f :: "real \<Rightarrow> string"
  format_4f :: "real \<Rightarrow> string"

text \<open>Lines 75 to 79 of \<^verbatim>\<open>main\<close>: the five prompts with their minimums.\<close>

definition get_inputs :: "builtins \<Rightarrow> (real \<times> real \<times> real \<times> real \<times> real) io" where
  "get_inputs b =
     io_bind (get_user_input ''Current Stock Price (S): $'' (py_float b) 0.0 (py_str b)) (\<lambda>S.
     io_bind (get_user_input ''Option Strike Price (K): $'' (py_float b) 0.0 (py_str b)) (\<lambda>K.
     io_bind (get_user_input ''Time to Expiration (T, in years, e.g., 0.5): ''
                (py_float b) 0.0001 (py_str b)) (\<lambda>T.
     io_bind (get_user_input ''Risk-Free Rate (r, decimal, e.g., 0.05 for 5%): ''
                (py_float b) (- 0.5) (py_str b)) (\<lambda>r.
     io_bind (get_user_input ''Volatility (sigma, decimal, e.g., 0.30 for 30%): ''
                (py_float b) 0.0001 (py_str b)) (\<lambda>sigma.
     io_return (S, K, T, r, sigma))))))"

text \<open>Lines 85 to 95 of \<^verbatim>\<open>main\<close>: the report.\<close>

definition print_results ::
    "builtins \<Rightarrow> real \<Rightarrow> real \<Rightarrow> real \<Rightarrow> real \<Rightarrow> real \<Rightarrow> real \<Rightarrow> real \<Rightarrow> unit io" where
  "print_results b S K T r sigma call_price put_price =
     io_bind (py_print (CHR 0x0A # ''--- Results ---'')) (\<lambda>_.
     io_bind (py_print ''Input Parameters:'') (\<lambda>_.
     io_bind (py_print (''  Spot Price (S):      $'' @ format_2f b S)) (\<lambda>_.
     io_bind (py_print (''  Strike Price (K):    $'' @ format_2f b K)) (\<lambda>_.
     io_bind (py_print (''  Time (T):            '' @ format_4f b T @ '' years'')) (\<lambda>_.
     io_bind (py_print (''  Risk-Free Rate (r):  '' @ format_4f b r)) (\<lambda>_.
     io_bind (py_print (''  Volatility (sigma):  '' @ format_4f b sigma)) (\<lambda>_.
     io_bind (py_print (replicate 25 (CHR ''-''))) (\<lambda>_.
     io_bind (py_print (''European Call Price: $'' @ format_4f b call_price)) (\<lambda>_.
     io_bind (py_print (''European Put Price:  $'' @ format_4f b put_price)) (\<lambda>_.
     py_print (replicate 25 (CHR ''-''))))))))))))"

text \<open>
  \<^verbatim>\<open>main()\<close>, lines 67 to 95. The call of line 82 is not inside a \<^verbatim>\<open>try\<close>, so an
  exception of the pricer ends \<^verbatim>\<open>main\<close> before anything of the report is printed.
\<close>

definition main :: "builtins \<Rightarrow> unit io" where
  "main b =
     io_bind (py_print (CHR 0x0A # ''--- Black-Scholes-Merton European Option Pricer ---'')) (\<lambda>_.
     io_bind (py_print ''Please enter the required parameters.'') (\<lambda>_.
     io_bind (get_inputs b) (\<lambda>(S, K, T, r, sigma).
     io_bind (\<lambda>inp out. (black_scholes_merton S K T r sigma, inp, out)) (\<lambda>(call_price, put_price).
     print_results b S K T r sigma call_price put_price))))"

text \<open>
  What the loop of \<^verbatim>\<open>get_user_input\<close> does with one entered line, in the words of the
  spec (sections 6 and 7): a line is rejected when the conversion raises ValueError or
  gives a value below the minimum; a rejected line is answered with an error message,
  and the prompt is written again. \<open>reprompts\<close> is the output for a run of rejected lines.
\<close>

definition rejected :: "(string \<Rightarrow> py_error + 'a) \<Rightarrow> ('a::ord) \<Rightarrow> string \<Rightarrow> bool" where
  "rejected value_type min_val line =
     (case value_type line of Inl e \<Rightarrow> e = ValueError | Inr v \<Rightarrow> v < min_val)"

definition error_message ::
    "(string \<Rightarrow> py_error + 'a) \<Rightarrow> ('a::ord) \<Rightarrow> ('a \<Rightarrow> string) \<Rightarrow> string \<Rightarrow> string" where
  "error_message value_type min_val str line =
     (case value_type line of
        Inl e \<Rightarrow> ''Error: Invalid input. Please enter a number.'' @ [CHR 0x0A]
      | Inr v \<Rightarrow> ''Error: Value must be at least '' @ str min_val @ ''.'' @ [CHR 0x0A])"

definition reprompts ::
    "string \<Rightarrow> (string \<Rightarrow> py_error + 'a) \<Rightarrow> ('a::ord) \<Rightarrow> ('a \<Rightarrow> string) \<Rightarrow> string list \<Rightarrow> string list" where
  "reprompts prompt value_type min_val str lines =
     concat (map (\<lambda>line. [prompt, error_message value_type min_val str line]) lines)"

text \<open>
  \<open>main_standard\<close> is \<^verbatim>\<open>main\<close> with the standard branch of the pricer in the place of the
  pricer: what \<^verbatim>\<open>main\<close> would be if the degenerate branch were deleted.
\<close>

definition main_standard :: "builtins \<Rightarrow> unit io" where
  "main_standard b =
     io_bind (py_print (CHR 0x0A # ''--- Black-Scholes-Merton European Option Pricer ---'')) (\<lambda>_.
     io_bind (py_print ''Please enter the required parameters.'') (\<lambda>_.
     io_bind (get_inputs b) (\<lambda>(S, K, T, r, sigma).
     io_bind (\<lambda>inp out. (formula_prices S K T r sigma, inp, out)) (\<lambda>(call_price, put_price).
     print_results b S K T r sigma call_price put_price))))"

text \<open>
  A small console for running the shell on concrete lines: a conversion that knows a few
  texts and raises ValueError on every other, and fixed texts for the formats.
\<close>

definition example_float :: "string \<Rightarrow> py_error + real" where
  "example_float text =
     (if text = ''0'' then Inr 0
      else if text = ''100'' then Inr 100
      else if text = ''-1'' then Inr (- 1)
      else if text = ''0.0001'' then Inr 0.0001
      else if text = ''-0.5'' then Inr (- 0.5)
      else if text = ''0.05'' then Inr 0.05
      else if text = ''0.2'' then Inr 0.2
      else Inl ValueError)"

definition example_builtins :: builtins where
  "example_builtins =
     \<lparr>py_float = example_float, py_str = (\<lambda>x. ''min''),
      format_2f = (\<lambda>x. ''x.xx''), format_4f = (\<lambda>x. ''x.xxxx'')\<rparr>"

section \<open>Properties of the normal distribution function\<close>

subsection \<open>The power series and its derivative\<close>

lemma diffs_gauss_coeff:
  "diffs gauss_coeff n = (if even n then (- 1 / 2) ^ (n div 2) / fact (n div 2) else 0)"
  by (simp add: diffs_def gauss_coeff_def)

lemma scaleR_fact: "(a::real) /\<^sub>R fact k = a / fact k"
  by (simp add: divide_inverse)

lemma norm_gauss_term:
  "norm ((- 1 / 2) ^ k * y ^ (2 * k + 1) / (fact k * real (2 * k + 1)))
     = \<bar>y\<bar> * ((y\<^sup>2 / 2) ^ k / fact k) / real (2 * k + 1)"
proof -
  have "\<bar>(- 1 / 2 :: real) ^ k\<bar> = (1 / 2) ^ k"
    by (simp add: power_abs)
  moreover have "\<bar>y ^ (2 * k + 1)\<bar> = \<bar>y\<bar> * (y\<^sup>2) ^ k"
    by (simp add: power_mult abs_mult power_abs)
  ultimately have "norm ((- 1 / 2) ^ k * y ^ (2 * k + 1) / (fact k * real (2 * k + 1)))
     = (1 / 2) ^ k * (\<bar>y\<bar> * (y\<^sup>2) ^ k) / (fact k * real (2 * k + 1))"
    unfolding real_norm_def abs_divide abs_mult by simp
  also have "\<dots> = \<bar>y\<bar> * ((y\<^sup>2 / 2) ^ k / fact k) / real (2 * k + 1)"
    by (simp add: power_divide)
  finally show ?thesis .
qed

lemma half_square_power: "(- (x\<^sup>2) / 2) ^ k = (- 1 / 2) ^ k * (x::real) ^ (2 * k)"
proof -
  have "(- (x\<^sup>2) / 2) = (- 1 / 2) * x\<^sup>2" by simp
  then have "(- (x\<^sup>2) / 2) ^ k = ((- 1 / 2) * x\<^sup>2) ^ k" by simp
  also have "\<dots> = (- 1 / 2) ^ k * (x\<^sup>2) ^ k" by (rule power_mult_distrib)
  also have "(x\<^sup>2) ^ k = x ^ (2 * k)" by (simp add: power_mult)
  finally show ?thesis .
qed

lemma exp_gauss_sums:
  "(\<lambda>n. diffs gauss_coeff n * x ^ n) sums exp (- (x\<^sup>2) / 2)"
proof -
  let ?f = "\<lambda>k. (- (x\<^sup>2) / 2) ^ k /\<^sub>R fact k"
  have e: "?f sums exp (- (x\<^sup>2) / 2)"
    by (rule exp_converges)
  have z: "(\<lambda>k::nat. 0::real) sums 0" by simp
  have s: "(\<lambda>n. if even n then ?f (n div 2) else 0) sums (0 + exp (- (x\<^sup>2) / 2))"
    using sums_if [OF z e] by simp
  have "(if even n then ?f (n div 2) else 0) = diffs gauss_coeff n * x ^ n" for n
  proof (cases "even n")
    case True
    then obtain k where k: "n = 2 * k" by (auto elim: evenE)
    have "?f k = (- (x\<^sup>2) / 2) ^ k / fact k"
      by (rule scaleR_fact)
    also have "\<dots> = (- 1 / 2) ^ k * x ^ (2 * k) / fact k"
      by (simp only: half_square_power)
    finally have "?f k = (- 1 / 2) ^ k / fact k * x ^ (2 * k)"
      by simp
    moreover have "n div 2 = k" by (simp add: k)
    ultimately show ?thesis
      using True by (simp add: diffs_gauss_coeff k)
  next
    case False
    then show ?thesis by (simp add: diffs_gauss_coeff)
  qed
  with s show ?thesis by simp
qed

lemma summable_gauss: "summable (\<lambda>n. gauss_coeff n * y ^ n)"
proof -
  let ?g = "\<lambda>k. (- 1 / 2) ^ k * y ^ (2 * k + 1) / (fact k * real (2 * k + 1))"
  have sm: "summable (\<lambda>k. \<bar>y\<bar> * norm ((y\<^sup>2 / 2) ^ k /\<^sub>R fact k))"
    by (intro summable_mult summable_norm_exp)
  have le: "norm (?g k) \<le> \<bar>y\<bar> * norm ((y\<^sup>2 / 2) ^ k /\<^sub>R fact k)" for k
  proof -
    have "norm (?g k) = \<bar>y\<bar> * ((y\<^sup>2 / 2) ^ k / fact k) / real (2 * k + 1)"
      by (rule norm_gauss_term)
    also have "\<dots> \<le> \<bar>y\<bar> * ((y\<^sup>2 / 2) ^ k / fact k) / 1"
      by (intro divide_left_mono mult_nonneg_nonneg) simp_all
    also have "\<dots> = \<bar>y\<bar> * norm ((y\<^sup>2 / 2) ^ k /\<^sub>R fact k)"
      unfolding scaleR_fact by (simp add: abs_divide power_abs)
    finally show ?thesis .
  qed
  have "summable ?g"
    by (rule summable_comparison_test' [OF sm, where N = 0]) (rule le)
  then have "?g sums suminf ?g" by (rule summable_sums)
  then have "(\<lambda>n. if even n then 0 else ?g ((n - 1) div 2)) sums suminf ?g"
    by (rule sums_if')
  moreover have "(if even n then 0 else ?g ((n - 1) div 2)) = gauss_coeff n * y ^ n" for n
  proof (cases "even n")
    case True
    then show ?thesis by (simp add: gauss_coeff_def)
  next
    case False
    then obtain k where k: "n = 2 * k + 1" by (auto elim: oddE)
    show ?thesis unfolding k gauss_coeff_def by simp
  qed
  ultimately have "(\<lambda>n. gauss_coeff n * y ^ n) sums suminf ?g" by simp
  then show ?thesis by (rule sums_summable)
qed

lemma DERIV_gauss_int: "(gauss_int has_real_derivative exp (- (x\<^sup>2) / 2)) (at x)"
proof -
  have "((\<lambda>x. \<Sum>n. gauss_coeff n * x ^ n) has_field_derivative (\<Sum>n. diffs gauss_coeff n * x ^ n)) (at x)"
    by (rule termdiffs_strong_converges_everywhere) (rule summable_gauss)
  moreover have "(\<Sum>n. diffs gauss_coeff n * x ^ n) = exp (- (x\<^sup>2) / 2)"
    using exp_gauss_sums by (rule sums_unique [symmetric])
  moreover have "gauss_int = (\<lambda>x. \<Sum>n. gauss_coeff n * x ^ n)"
    by (rule ext) (simp add: gauss_int_def)
  ultimately show ?thesis by simp
qed

lemma gauss_int_0: "gauss_int 0 = 0"
proof -
  have "gauss_int 0 = gauss_coeff 0"
    unfolding gauss_int_def by (rule powser_zero)
  then show ?thesis by (simp add: gauss_coeff_def)
qed


subsection \<open>Monotone, odd and bounded\<close>

lemma gauss_int_strict_mono: "x < y \<Longrightarrow> gauss_int x < gauss_int y"
  by (rule DERIV_pos_imp_increasing [of x y gauss_int])
     (auto intro: DERIV_gauss_int exp_gt_zero)

lemma gauss_int_mono: "x \<le> y \<Longrightarrow> gauss_int x \<le> gauss_int y"
  using gauss_int_strict_mono [of x y] by (cases "x = y") auto

lemma gauss_int_odd: "gauss_int (- x) = - gauss_int x"
proof -
  let ?f = "\<lambda>x. gauss_int x + gauss_int (- x)"
  have "(?f has_real_derivative 0) (at t)" for t
    by (auto intro!: derivative_eq_intros DERIV_chain' [where g = gauss_int] DERIV_gauss_int)
  then have "?f x = ?f 0"
    by (intro DERIV_isconst_all) simp
  then show ?thesis by (simp add: gauss_int_0)
qed

lemma exp_neg_half_square_le: "exp (- (x\<^sup>2) / 2) \<le> 2 / (1 + (x::real)\<^sup>2)"
proof -
  have "1 + x\<^sup>2 / 2 \<le> exp (x\<^sup>2 / 2)"
    by (rule exp_ge_add_one_self)
  moreover have "0 < 1 + x\<^sup>2 / 2"
    by (rule add_pos_nonneg) simp_all
  ultimately have "1 / exp (x\<^sup>2 / 2) \<le> 1 / (1 + x\<^sup>2 / 2)"
    by (intro divide_left_mono) simp_all
  also have "1 / exp (x\<^sup>2 / 2) = exp (- (x\<^sup>2) / 2)"
    by (simp add: exp_minus inverse_eq_divide)
  also have "1 / (1 + x\<^sup>2 / 2) = 2 / (2 + x\<^sup>2)"
    by (simp add: field_simps)
  also have "\<dots> \<le> 2 / (1 + x\<^sup>2)"
    by (intro divide_left_mono mult_pos_pos add_pos_nonneg) simp_all
  finally show ?thesis .
qed

lemma gauss_int_le_pi: "gauss_int x \<le> pi"
proof (cases "0 \<le> x")
  case True
  let ?h = "\<lambda>t. 2 * arctan t - gauss_int t"
  have "?h 0 \<le> ?h x"
  proof (rule DERIV_nonneg_imp_nondecreasing [OF True])
    fix t :: real
    have "(?h has_real_derivative (2 * (1 / (1 + t\<^sup>2)) - exp (- (t\<^sup>2) / 2))) (at t)"
      by (auto intro!: derivative_eq_intros DERIV_gauss_int simp: inverse_eq_divide)
    moreover have "0 \<le> 2 * (1 / (1 + t\<^sup>2)) - exp (- (t\<^sup>2) / 2)"
      using exp_neg_half_square_le [of t] by simp
    ultimately show "\<exists>y. (?h has_real_derivative y) (at t) \<and> 0 \<le> y"
      by blast
  qed
  then have "gauss_int x \<le> 2 * arctan x"
    by (simp add: gauss_int_0)
  also have "\<dots> \<le> pi"
    using arctan_ubound [of x] by simp
  finally show ?thesis .
next
  case False
  then have "gauss_int x \<le> gauss_int 0"
    by (intro gauss_int_mono) simp
  also have "\<dots> = 0" by (rule gauss_int_0)
  also have "0 \<le> pi" by (rule pi_ge_zero)
  finally show ?thesis .
qed

lemma bdd_above_gauss_int: "bdd_above (range gauss_int)"
  by (rule bdd_aboveI [where M = pi]) (auto simp: gauss_int_le_pi)

lemma gauss_int_le_half: "gauss_int x \<le> gauss_half"
  unfolding gauss_half_def by (rule cSUP_upper [OF _ bdd_above_gauss_int]) simp

lemma gauss_int_less_half: "gauss_int x < gauss_half"
proof -
  have "gauss_int x < gauss_int (x + 1)"
    by (rule gauss_int_strict_mono) simp
  also have "\<dots> \<le> gauss_half"
    by (rule gauss_int_le_half)
  finally show ?thesis .
qed

lemma gauss_half_pos: "0 < gauss_half"
  using gauss_int_less_half [of 0] by (simp add: gauss_int_0)

lemma gauss_int_approaches_half:
  assumes "0 < e"
  shows "\<exists>x. gauss_half - e < gauss_int x"
proof (rule ccontr)
  assume "\<not> ?thesis"
  then have "gauss_int x \<le> gauss_half - e" for x
    by (simp add: not_less)
  then have "(SUP x. gauss_int x) \<le> gauss_half - e"
    by (intro cSUP_least) simp_all
  with assms show False
    by (simp add: gauss_half_def)
qed


subsection \<open>The integrals of the powers of the cosine\<close>

lemma DERIV_cos_power_sin:
  "((\<lambda>x. cos x ^ Suc k * sin x) has_real_derivative
      real (Suc (Suc k)) * cos x ^ Suc (Suc k) - real (Suc k) * cos x ^ k) (at x)"
proof -
  have "((\<lambda>x. cos x ^ Suc k) has_real_derivative real (Suc k) * cos x ^ k * (- sin x)) (at x)"
    using DERIV_power [OF DERIV_cos, where n = "Suc k" and x = x] by (simp add: mult_ac)
  then have "((\<lambda>x. cos x ^ Suc k * sin x) has_real_derivative
      (real (Suc k) * cos x ^ k * (- sin x)) * sin x + cos x * cos x ^ Suc k) (at x)"
    by (rule DERIV_mult) (rule DERIV_sin)
  moreover have "(real (Suc k) * cos x ^ k * (- sin x)) * sin x + cos x * cos x ^ Suc k
      = real (Suc (Suc k)) * cos x ^ Suc (Suc k) - real (Suc k) * cos x ^ k"
  proof -
    have ss: "sin x * sin x = 1 - cos x * cos x"
      using sin_squared_eq [of x] by (simp add: power2_eq_square)
    have "(real (Suc k) * cos x ^ k * (- sin x)) * sin x
        = - (real (Suc k) * cos x ^ k * (sin x * sin x))"
      by simp
    also have "\<dots> = - (real (Suc k) * cos x ^ k * (1 - cos x * cos x))"
      by (simp only: ss)
    finally have step: "(real (Suc k) * cos x ^ k * (- sin x)) * sin x
        = - (real (Suc k) * cos x ^ k * (1 - cos x * cos x))" .
    show ?thesis
      unfolding step by (simp add: algebra_simps)
  qed
  ultimately show ?thesis by simp
qed

lemma DERIV_cos_int: "(cos_int k has_real_derivative cos x ^ k) (at x)"
proof (induction k x rule: cos_int.induct)
  case (1 x)
  have "cos_int 0 = (\<lambda>x. x)" by (rule ext) simp
  then show ?case by simp
next
  case (2 x)
  have "cos_int (Suc 0) = sin" by (rule ext) simp
  then show ?case by (auto intro!: derivative_eq_intros)
next
  case (3 k x)
  have "((\<lambda>x. (cos x ^ Suc k * sin x + real (Suc k) * cos_int k x) / real (Suc (Suc k)))
      has_real_derivative
        ((real (Suc (Suc k)) * cos x ^ Suc (Suc k) - real (Suc k) * cos x ^ k)
          + real (Suc k) * cos x ^ k) / real (Suc (Suc k))) (at x)"
    by (intro DERIV_cdivide DERIV_add DERIV_cmult DERIV_cos_power_sin "3.IH")
  moreover have "cos_int (Suc (Suc k))
      = (\<lambda>x. (cos x ^ Suc k * sin x + real (Suc k) * cos_int k x) / real (Suc (Suc k)))"
    by (rule ext) simp
  ultimately show ?case by simp
qed

lemma cos_int_0: "cos_int k 0 = 0"
  by (induction k "0::real" rule: cos_int.induct) simp_all

lemma wallis_0: "wallis 0 = pi / 2"
  by (simp add: wallis_def)

lemma wallis_1: "wallis (Suc 0) = 1"
  by (simp add: wallis_def)

lemma wallis_Suc_Suc: "wallis (Suc (Suc k)) = real (Suc k) / real (Suc (Suc k)) * wallis k"
  by (simp add: wallis_def)

lemma wallis_pos_pair: "0 < wallis k \<and> 0 < wallis (Suc k)"
proof (induction k)
  case 0
  show ?case by (simp add: wallis_0 wallis_1)
next
  case (Suc k)
  then have "0 < real (Suc k) / real (Suc (Suc k)) * wallis k"
    by (intro mult_pos_pos divide_pos_pos) simp_all
  with Suc show ?case
    by (simp only: wallis_Suc_Suc)
qed

lemma wallis_pos: "0 < wallis k"
  using wallis_pos_pair [of k] by simp

lemma wallis_product: "real (Suc k) * wallis k * wallis (Suc k) = pi / 2"
proof (induction k)
  case 0
  show ?case by (simp add: wallis_0 wallis_1)
next
  case (Suc k)
  have eq: "real (Suc (Suc k)) * wallis (Suc k) * wallis (Suc (Suc k))
      = real (Suc k) * wallis k * wallis (Suc k)"
    by (simp add: wallis_Suc_Suc)
  show ?case
    unfolding eq by (rule Suc.IH)
qed

lemma cos_int_mono:
  assumes "0 \<le> x" "x \<le> y" "y \<le> pi / 2"
  shows "cos_int k x \<le> cos_int k y"
proof (rule DERIV_nonneg_imp_nondecreasing [OF assms(2)])
  fix t assume "x \<le> t" "t \<le> y"
  with assms have "0 \<le> cos t"
    by (intro cos_ge_zero) simp_all
  then have "0 \<le> cos t ^ k" by simp
  then show "\<exists>d. (cos_int k has_real_derivative d) (at t) \<and> 0 \<le> d"
    using DERIV_cos_int by blast
qed

lemma cos_int_le_wallis:
  assumes "0 \<le> x" "x \<le> pi / 2"
  shows "cos_int k x \<le> wallis k"
  unfolding wallis_def using assms by (intro cos_int_mono) simp_all

lemma wallis_antimono: "wallis (Suc k) \<le> wallis k"
proof -
  let ?f = "\<lambda>x. cos_int k x - cos_int (Suc k) x"
  have "?f 0 \<le> ?f (pi / 2)"
  proof (rule DERIV_nonneg_imp_nondecreasing [of 0 "pi / 2" ?f])
    show "0 \<le> pi / 2" by simp
  next
    fix t :: real
    assume t: "0 \<le> t" "t \<le> pi / 2"
    then have c: "0 \<le> cos t"
      by (intro cos_ge_zero) simp_all
    have "(?f has_real_derivative cos t ^ k - cos t ^ Suc k) (at t)"
      by (intro DERIV_diff DERIV_cos_int)
    moreover have "cos t ^ Suc k \<le> cos t ^ k"
      using c cos_le_one [of t] by (simp add: mult_left_le_one_le)
    ultimately show "\<exists>d. (?f has_real_derivative d) (at t) \<and> 0 \<le> d"
      by (intro exI [of _ "cos t ^ k - cos t ^ Suc k"]) simp
  qed
  then show ?thesis
    by (simp add: cos_int_0 wallis_def)
qed

lemma power_one_minus_le_exp:
  fixes u :: real
  assumes "u \<le> 1"
  shows "(1 - u) ^ n \<le> exp (- (real n * u))"
proof -
  have "1 + (- u) \<le> exp (- u)"
    by (rule exp_ge_add_one_self)
  then have "(1 - u) ^ n \<le> exp (- u) ^ n"
    using assms by (intro power_mono) simp_all
  also have "\<dots> = exp (real n * (- u))"
    by (rule exp_of_nat_mult [symmetric])
  finally show ?thesis by simp
qed

subsection \<open>The value of the Gaussian integral\<close>

lemma exp_neg_le_inverse_power:
  fixes w :: real
  assumes "0 \<le> w"
  shows "exp (- (real n * w)) \<le> (1 / (1 + w)) ^ n"
proof -
  have "1 + w \<le> exp w"
    by (rule exp_ge_add_one_self)
  then have "1 / exp w \<le> 1 / (1 + w)"
    using assms by (intro divide_left_mono mult_pos_pos) simp_all
  then have "exp (- w) \<le> 1 / (1 + w)"
    by (simp add: exp_minus inverse_eq_divide)
  then have "exp (- w) ^ n \<le> (1 / (1 + w)) ^ n"
    by (intro power_mono) simp_all
  moreover have "exp (- w) ^ n = exp (real n * (- w))"
    by (rule exp_of_nat_mult [symmetric])
  ultimately show ?thesis by simp
qed

lemma gauss_int_lower:
  "sqrt (2 * real n) * wallis (Suc (2 * n)) \<le> gauss_int (sqrt (2 * real n))"
proof -
  define a where "a = sqrt (2 * real n)"
  have a: "0 \<le> a" "a\<^sup>2 = 2 * real n"
    by (simp_all add: a_def)
  let ?f = "\<lambda>x. gauss_int (a * sin x) - a * cos_int (Suc (2 * n)) x"
  have "?f 0 \<le> ?f (pi / 2)"
  proof (rule DERIV_nonneg_imp_nondecreasing [of 0 "pi / 2" ?f])
    show "0 \<le> pi / 2" by simp
  next
    fix t :: real
    assume t: "0 \<le> t" "t \<le> pi / 2"
    then have c: "0 \<le> cos t"
      by (intro cos_ge_zero) simp_all
    have "((\<lambda>x. a * sin x) has_real_derivative a * cos t) (at t)"
      by (intro DERIV_cmult DERIV_sin)
    then have "((\<lambda>x. gauss_int (a * sin x)) has_real_derivative
        exp (- ((a * sin t)\<^sup>2) / 2) * (a * cos t)) (at t)"
      by (rule DERIV_chain') (rule DERIV_gauss_int)
    then have der: "(?f has_real_derivative
        exp (- ((a * sin t)\<^sup>2) / 2) * (a * cos t) - a * cos t ^ Suc (2 * n)) (at t)"
      by (intro DERIV_diff DERIV_cmult DERIV_cos_int)
    have "- ((a * sin t)\<^sup>2) / 2 = - (real n * (sin t)\<^sup>2)"
      by (simp add: power_mult_distrib a(2))
    moreover have "cos t ^ (2 * n) \<le> exp (- (real n * (sin t)\<^sup>2))"
    proof -
      have "cos t ^ (2 * n) = (1 - (sin t)\<^sup>2) ^ n"
        by (simp add: power_mult cos_squared_eq)
      also have "\<dots> \<le> exp (- (real n * (sin t)\<^sup>2))"
        by (rule power_one_minus_le_exp) (simp add: abs_sin_le_one abs_square_le_1)
      finally show ?thesis .
    qed
    ultimately have "cos t ^ (2 * n) \<le> exp (- ((a * sin t)\<^sup>2) / 2)"
      by simp
    then have "(a * cos t) * cos t ^ (2 * n) \<le> (a * cos t) * exp (- ((a * sin t)\<^sup>2) / 2)"
      using a(1) c by (intro mult_left_mono mult_nonneg_nonneg)
    then have "0 \<le> exp (- ((a * sin t)\<^sup>2) / 2) * (a * cos t) - a * cos t ^ Suc (2 * n)"
      by (simp add: mult_ac)
    with der show "\<exists>d. (?f has_real_derivative d) (at t) \<and> 0 \<le> d"
      by blast
  qed
  then show ?thesis
    by (simp add: gauss_int_0 cos_int_0 wallis_def a_def)
qed

lemma gauss_int_upper:
  "gauss_int x \<le> sqrt (2 * real (Suc m)) * wallis (2 * m)"
proof (cases "0 < x")
  case False
  then have "gauss_int x \<le> gauss_int 0"
    by (intro gauss_int_mono) simp
  also have "\<dots> = 0" by (rule gauss_int_0)
  also have "0 \<le> sqrt (2 * real (Suc m)) * wallis (2 * m)"
    using wallis_pos [of "2 * m"] by (intro mult_nonneg_nonneg) simp_all
  finally show ?thesis .
next
  case True
  define a where "a = sqrt (2 * real (Suc m))"
  have a: "0 < a" "a\<^sup>2 = 2 * real (Suc m)"
    by (simp_all add: a_def)
  define y where "y = arctan (x / a)"
  have y: "0 \<le> y" "y < pi / 2" "tan y = x / a"
  proof -
    show "0 \<le> y" using True a(1) by (simp add: y_def)
    show "y < pi / 2" unfolding y_def by (rule arctan_ubound)
    show "tan y = x / a" unfolding y_def by (rule tan_arctan)
  qed
  let ?f = "\<lambda>t. gauss_int (a * tan t) - a * cos_int (2 * m) t"
  have "?f y \<le> ?f 0"
  proof (rule DERIV_nonpos_imp_nonincreasing [of 0 y ?f])
    show "0 \<le> y" by (rule y(1))
  next
    fix t :: real
    assume t: "0 \<le> t" "t \<le> y"
    with y(2) have c: "0 < cos t"
      by (intro cos_gt_zero_pi) simp_all
    then have cn: "cos t \<noteq> 0" by simp
    have "((\<lambda>x. a * tan x) has_real_derivative a * inverse ((cos t)\<^sup>2)) (at t)"
      by (intro DERIV_cmult DERIV_tan cn)
    then have "((\<lambda>x. gauss_int (a * tan x)) has_real_derivative
        exp (- ((a * tan t)\<^sup>2) / 2) * (a * inverse ((cos t)\<^sup>2))) (at t)"
      by (rule DERIV_chain') (rule DERIV_gauss_int)
    then have der: "(?f has_real_derivative
        exp (- ((a * tan t)\<^sup>2) / 2) * (a * inverse ((cos t)\<^sup>2)) - a * cos t ^ (2 * m)) (at t)"
      by (intro DERIV_diff DERIV_cmult DERIV_cos_int)
    have "1 + (tan t)\<^sup>2 = 1 / (cos t)\<^sup>2"
      using cn by (simp add: tan_def power_divide field_simps sin_squared_eq)
    then have inv: "1 / (1 + (tan t)\<^sup>2) = (cos t)\<^sup>2"
      by simp
    have "- ((a * tan t)\<^sup>2) / 2 = - (real (Suc m) * (tan t)\<^sup>2)"
      by (simp add: power_mult_distrib a(2))
    moreover have "exp (- (real (Suc m) * (tan t)\<^sup>2)) \<le> (1 / (1 + (tan t)\<^sup>2)) ^ Suc m"
      by (rule exp_neg_le_inverse_power) simp
    ultimately have "exp (- ((a * tan t)\<^sup>2) / 2) \<le> ((cos t)\<^sup>2) ^ Suc m"
      by (simp only: inv)
    then have "exp (- ((a * tan t)\<^sup>2) / 2) \<le> (cos t)\<^sup>2 * cos t ^ (2 * m)"
      by (simp add: power_mult)
    then have "exp (- ((a * tan t)\<^sup>2) / 2) * inverse ((cos t)\<^sup>2) \<le> cos t ^ (2 * m)"
      using c by (simp add: field_simps)
    then have "a * (exp (- ((a * tan t)\<^sup>2) / 2) * inverse ((cos t)\<^sup>2)) \<le> a * cos t ^ (2 * m)"
      using a(1) by (intro mult_left_mono) simp_all
    then have "exp (- ((a * tan t)\<^sup>2) / 2) * (a * inverse ((cos t)\<^sup>2)) - a * cos t ^ (2 * m) \<le> 0"
      by (simp add: mult_ac)
    with der show "\<exists>d. (?f has_real_derivative d) (at t) \<and> d \<le> 0"
      by blast
  qed
  moreover have "a * tan y = x"
    using a(1) by (simp add: y(3))
  ultimately have "gauss_int x \<le> a * cos_int (2 * m) y"
    by (simp add: gauss_int_0 cos_int_0)
  also have "\<dots> \<le> a * wallis (2 * m)"
    using a(1) y by (intro mult_left_mono cos_int_le_wallis) simp_all
  finally show ?thesis
    by (simp add: a_def)
qed

lemma wallis_consecutive: "wallis (Suc k) * wallis (Suc (Suc k)) = (pi / 2) / real (Suc (Suc k))"
proof -
  have "real (Suc (Suc k)) * wallis (Suc k) * wallis (Suc (Suc k)) = pi / 2"
    by (rule wallis_product)
  then show ?thesis
    by (simp add: field_simps)
qed

lemma gauss_half_lower: "sqrt (2 * real n) * wallis (Suc (2 * n)) \<le> gauss_half"
  using gauss_int_lower [of n] gauss_int_le_half [of "sqrt (2 * real n)"] by simp

lemma gauss_half_upper: "gauss_half \<le> sqrt (2 * real (Suc m)) * wallis (2 * m)"
  unfolding gauss_half_def
proof (rule cSUP_least)
  show "(UNIV :: real set) \<noteq> {}" by simp
  show "gauss_int x \<le> sqrt (2 * real (Suc m)) * wallis (2 * m)" for x
    by (rule gauss_int_upper)
qed

lemma gauss_half_square_lower: "(pi / 2) * (real n / real (Suc n)) \<le> gauss_half\<^sup>2"
proof -
  let ?w = "wallis (Suc (2 * n))"
  have w: "0 < ?w" by (rule wallis_pos)
  have "?w * wallis (Suc (Suc (2 * n))) \<le> ?w * ?w"
    using w wallis_antimono [of "Suc (2 * n)"] by (intro mult_left_mono) simp_all
  then have "(pi / 2) / real (Suc (Suc (2 * n))) \<le> ?w\<^sup>2"
    by (simp only: wallis_consecutive power2_eq_square)
  then have "(2 * real n) * ((pi / 2) / real (Suc (Suc (2 * n)))) \<le> (2 * real n) * ?w\<^sup>2"
    by (intro mult_left_mono) simp_all
  also have "(2 * real n) * ?w\<^sup>2 = (sqrt (2 * real n) * ?w)\<^sup>2"
    by (simp add: power_mult_distrib)
  also have "\<dots> \<le> gauss_half\<^sup>2"
    using w by (intro power_mono gauss_half_lower mult_nonneg_nonneg) simp_all
  finally have "(2 * real n) * ((pi / 2) / real (Suc (Suc (2 * n)))) \<le> gauss_half\<^sup>2" .
  moreover have "(2 * real n) * ((pi / 2) / real (Suc (Suc (2 * n)))) = (pi / 2) * (real n / real (Suc n))"
    by (simp add: field_simps)
  ultimately show ?thesis by simp
qed

lemma gauss_half_square_upper: "gauss_half\<^sup>2 \<le> (pi / 2) * (real (Suc (Suc n)) / real (Suc n))"
proof -
  let ?w = "wallis (Suc (Suc (2 * n)))"
  have w: "0 < ?w" by (rule wallis_pos)
  have "gauss_half\<^sup>2 \<le> (sqrt (2 * real (Suc (Suc n))) * wallis (2 * Suc n))\<^sup>2"
    using gauss_half_pos by (intro power_mono gauss_half_upper) simp_all
  also have "\<dots> = (2 * real (Suc (Suc n))) * ?w\<^sup>2"
    by (simp add: power_mult_distrib)
  also have "\<dots> \<le> (2 * real (Suc (Suc n))) * ((pi / 2) / real (Suc (Suc (2 * n))))"
  proof (rule mult_left_mono)
    have "?w * ?w \<le> wallis (Suc (2 * n)) * ?w"
      using w wallis_antimono [of "Suc (2 * n)"] by (intro mult_right_mono) simp_all
    then show "?w\<^sup>2 \<le> (pi / 2) / real (Suc (Suc (2 * n)))"
      by (simp only: wallis_consecutive power2_eq_square)
  qed simp
  also have "\<dots> = (pi / 2) * (real (Suc (Suc n)) / real (Suc n))"
    by (simp add: field_simps)
  finally show ?thesis .
qed

lemma eq_if_close:
  fixes d c :: real
  assumes "0 < c" and close: "\<And>n. \<bar>d\<bar> \<le> c / real (Suc n)"
  shows "d = 0"
proof (rule ccontr)
  assume "d \<noteq> 0"
  then have "0 < \<bar>d\<bar> / c"
    using assms(1) by simp
  then obtain n where "inverse (real (Suc n)) < \<bar>d\<bar> / c"
    using reals_Archimedean by blast
  then have "c / real (Suc n) < \<bar>d\<bar>"
    using assms(1) by (simp add: field_simps)
  with close [of n] show False by simp
qed

lemma gauss_half_square: "gauss_half\<^sup>2 = pi / 2"
proof -
  have "\<bar>gauss_half\<^sup>2 - pi / 2\<bar> \<le> (pi / 2) / real (Suc n)" for n
  proof -
    have "(pi / 2) * (real n / real (Suc n)) = pi / 2 - (pi / 2) / real (Suc n)"
      by (simp add: field_simps)
    moreover have "(pi / 2) * (real (Suc (Suc n)) / real (Suc n)) = pi / 2 + (pi / 2) / real (Suc n)"
      by (simp add: field_simps)
    ultimately show ?thesis
      using gauss_half_square_lower [of n] gauss_half_square_upper [of n]
      by (simp only: abs_le_iff) linarith
  qed
  then have "gauss_half\<^sup>2 - pi / 2 = 0"
    by (intro eq_if_close [of "pi / 2"]) simp_all
  then show ?thesis by simp
qed

lemma gauss_half_eq: "gauss_half = sqrt (pi / 2)"
  using gauss_half_square gauss_half_pos
  by (intro real_sqrt_unique [symmetric]) simp_all

lemma sqrt_two_pi: "sqrt (2 * pi) = 2 * gauss_half"
  unfolding gauss_half_eq
  by (rule real_sqrt_unique) (simp_all add: power_mult_distrib)

subsection \<open>The distribution function\<close>

lemma norm_pdf_half: "norm_pdf x = exp (- (x\<^sup>2) / 2) / (2 * gauss_half)"
  by (simp only: norm_pdf_def sqrt_two_pi)

lemma norm_cdf_half: "norm_cdf x = 1 / 2 + gauss_int x / (2 * gauss_half)"
  by (simp only: norm_cdf_def sqrt_two_pi)

lemma norm_pdf_pos: "0 < norm_pdf x"
  by (simp add: norm_pdf_half gauss_half_pos)

lemma DERIV_norm_cdf: "(norm_cdf has_real_derivative norm_pdf x) (at x)"
proof -
  have "((\<lambda>x. 1 / 2 + gauss_int x / (2 * gauss_half)) has_real_derivative
          exp (- (x\<^sup>2) / 2) / (2 * gauss_half)) (at x)"
    using gauss_half_pos
    by (auto intro!: derivative_eq_intros DERIV_gauss_int)
  moreover have "norm_cdf = (\<lambda>x. 1 / 2 + gauss_int x / (2 * gauss_half))"
    by (rule ext) (simp add: norm_cdf_half)
  ultimately show ?thesis
    by (simp add: norm_pdf_half)
qed

lemma norm_cdf_symmetric: "norm_cdf (- x) = 1 - norm_cdf x"
  by (simp add: norm_cdf_half gauss_int_odd)

lemma norm_cdf_less_one: "norm_cdf x < 1"
proof -
  have "gauss_int x / (2 * gauss_half) < gauss_half / (2 * gauss_half)"
    using gauss_half_pos gauss_int_less_half [of x]
    by (intro divide_strict_right_mono) simp_all
  also have "\<dots> = 1 / 2"
    using gauss_half_pos by simp
  finally show ?thesis
    by (simp add: norm_cdf_half)
qed

lemma norm_cdf_pos: "0 < norm_cdf x"
  using norm_cdf_less_one [of "- x"] by (simp add: norm_cdf_symmetric)

lemma norm_cdf_mono: "x \<le> y \<Longrightarrow> norm_cdf x \<le> norm_cdf y"
  using gauss_half_pos
  by (simp add: norm_cdf_half gauss_int_mono divide_right_mono)

lemma norm_cdf_near_one:
  assumes "0 < e"
  shows "\<exists>x. 1 - e < norm_cdf x"
proof -
  have "0 < 2 * gauss_half * e"
    using assms gauss_half_pos by simp
  then obtain x where x: "gauss_half - 2 * gauss_half * e < gauss_int x"
    using gauss_int_approaches_half by blast
  have "1 - e = 1 / 2 + (gauss_half - 2 * gauss_half * e) / (2 * gauss_half)"
    using gauss_half_pos by (simp add: field_simps)
  also have "\<dots> < 1 / 2 + gauss_int x / (2 * gauss_half)"
    using x gauss_half_pos by (simp add: divide_strict_right_mono)
  finally show ?thesis
    by (auto simp: norm_cdf_half)
qed

lemma norm_cdf_near_zero:
  assumes "0 < e"
  shows "\<exists>x. \<forall>y\<le>x. norm_cdf y < e"
proof -
  obtain x where x: "1 - e < norm_cdf x"
    using norm_cdf_near_one [OF assms] by blast
  have "norm_cdf y < e" if "y \<le> - x" for y
  proof -
    have "norm_cdf y \<le> norm_cdf (- x)"
      using that by (rule norm_cdf_mono)
    also have "\<dots> < e"
      using x by (simp add: norm_cdf_symmetric)
    finally show ?thesis .
  qed
  then show ?thesis by blast
qed

lemma norm_cdf_at_top: "(norm_cdf \<longlongrightarrow> 1) at_top"
proof (rule order_tendstoI)
  fix a :: real
  assume "a < 1"
  then obtain x where x: "1 - (1 - a) < norm_cdf x"
    using norm_cdf_near_one [of "1 - a"] by auto
  have "a < norm_cdf y" if "x \<le> y" for y
    using x norm_cdf_mono [OF that] by simp
  then show "eventually (\<lambda>y. a < norm_cdf y) at_top"
    unfolding eventually_at_top_linorder by blast
next
  fix a :: real
  assume "1 < a"
  then have "norm_cdf y < a" for y
    using norm_cdf_less_one [of y] by simp
  then show "eventually (\<lambda>y. norm_cdf y < a) at_top"
    by simp
qed

lemma norm_cdf_at_bot: "(norm_cdf \<longlongrightarrow> 0) at_bot"
proof (rule order_tendstoI)
  fix a :: real
  assume "a < 0"
  then have "a < norm_cdf y" for y
    using norm_cdf_pos [of y] by simp
  then show "eventually (\<lambda>y. a < norm_cdf y) at_bot"
    by simp
next
  fix a :: real
  assume "0 < a"
  then obtain x where "\<forall>y\<le>x. norm_cdf y < a"
    using norm_cdf_near_zero by blast
  then show "eventually (\<lambda>y. norm_cdf y < a) at_bot"
    unfolding eventually_at_bot_linorder by blast
qed


subsection \<open>The greatest value of a difference of two distribution values\<close>

lemma norm_pdf_shift: "norm_pdf (d - v) = norm_pdf d * exp (v * d - v\<^sup>2 / 2)"
proof -
  have "- ((d - v)\<^sup>2) / 2 = - (d\<^sup>2) / 2 + (v * d - v\<^sup>2 / 2)"
    by (simp add: power2_diff field_simps)
  then have "exp (- ((d - v)\<^sup>2) / 2) = exp (- (d\<^sup>2) / 2) * exp (v * d - v\<^sup>2 / 2)"
    by (simp only: exp_add)
  then show ?thesis
    by (simp add: norm_pdf_half)
qed

lemma DERIV_bs_objective:
  "((\<lambda>d. A * norm_cdf d - B * norm_cdf (d - v)) has_real_derivative
      norm_pdf d * (A - B * exp (v * d - v\<^sup>2 / 2))) (at d)"
proof -
  have "((\<lambda>d. d - v) has_real_derivative 1) (at d)"
    by (auto intro!: derivative_eq_intros)
  then have shifted: "((\<lambda>d. norm_cdf (d - v)) has_real_derivative norm_pdf (d - v) * 1) (at d)"
    by (rule DERIV_chain') (rule DERIV_norm_cdf)
  have "((\<lambda>d. A * norm_cdf d - B * norm_cdf (d - v)) has_real_derivative
          A * norm_pdf d - B * (norm_pdf (d - v) * 1)) (at d)"
    by (intro DERIV_diff DERIV_cmult DERIV_norm_cdf shifted)
  moreover have "A * norm_pdf d - B * (norm_pdf (d - v) * 1)
      = norm_pdf d * (A - B * exp (v * d - v\<^sup>2 / 2))"
    by (simp add: norm_pdf_shift algebra_simps)
  ultimately show ?thesis by simp
qed

lemma exp_le_ratio:
  fixes A B v t :: real
  assumes "0 < A" "0 < B" "0 < v" "t \<le> (ln (A / B) + v\<^sup>2 / 2) / v"
  shows "B * exp (v * t - v\<^sup>2 / 2) \<le> A"
proof -
  have "v * t \<le> ln (A / B) + v\<^sup>2 / 2"
    using assms(3,4) by (simp add: pos_le_divide_eq mult.commute)
  then have "exp (v * t - v\<^sup>2 / 2) \<le> exp (ln (A / B))"
    by simp
  also have "\<dots> = A / B"
    using assms(1,2) by simp
  finally show ?thesis
    using assms(2) by (simp add: pos_le_divide_eq mult.commute)
qed

lemma exp_ge_ratio:
  fixes A B v t :: real
  assumes "0 < A" "0 < B" "0 < v" "(ln (A / B) + v\<^sup>2 / 2) / v \<le> t"
  shows "A \<le> B * exp (v * t - v\<^sup>2 / 2)"
proof -
  have "ln (A / B) + v\<^sup>2 / 2 \<le> v * t"
    using assms(3,4) by (simp add: pos_divide_le_eq mult.commute)
  then have "exp (ln (A / B)) \<le> exp (v * t - v\<^sup>2 / 2)"
    by simp
  moreover have "exp (ln (A / B)) = A / B"
    using assms(1,2) by simp
  ultimately show ?thesis
    using assms(2) by (simp add: pos_divide_le_eq mult.commute)
qed

lemma bs_objective_max:
  assumes "0 < A" "0 < B" "0 < v"
  shows "A * norm_cdf d - B * norm_cdf (d - v)
     \<le> A * norm_cdf ((ln (A / B) + v\<^sup>2 / 2) / v)
       - B * norm_cdf ((ln (A / B) + v\<^sup>2 / 2) / v - v)"
proof -
  let ?u = "\<lambda>d. A * norm_cdf d - B * norm_cdf (d - v)"
  let ?m = "(ln (A / B) + v\<^sup>2 / 2) / v"
  show ?thesis
  proof (cases "d \<le> ?m")
    case True
    show ?thesis
    proof (rule DERIV_nonneg_imp_nondecreasing [of d ?m ?u, OF True])
      fix t assume "d \<le> t" "t \<le> ?m"
      then have "0 \<le> A - B * exp (v * t - v\<^sup>2 / 2)"
        using exp_le_ratio [OF assms, of t] by simp
      then have "0 \<le> norm_pdf t * (A - B * exp (v * t - v\<^sup>2 / 2))"
        using norm_pdf_pos [of t] by (intro mult_nonneg_nonneg) simp_all
      then show "\<exists>y. (?u has_real_derivative y) (at t) \<and> 0 \<le> y"
        using DERIV_bs_objective by blast
    qed
  next
    case False
    then have le: "?m \<le> d" by simp
    show ?thesis
    proof (rule DERIV_nonpos_imp_nonincreasing [of ?m d ?u, OF le])
      fix t assume "?m \<le> t" "t \<le> d"
      then have "A - B * exp (v * t - v\<^sup>2 / 2) \<le> 0"
        using exp_ge_ratio [OF assms, of t] by simp
      then have "norm_pdf t * (A - B * exp (v * t - v\<^sup>2 / 2)) \<le> 0"
        using norm_pdf_pos [of t] by (intro mult_nonneg_nonpos) simp_all
      then show "\<exists>y. (?u has_real_derivative y) (at t) \<and> y \<le> 0"
        using DERIV_bs_objective by blast
    qed
  qed
qed

section \<open>The formulas of the spec in exact arithmetic\<close>

text \<open>
  The lemmas of this section are about \<open>spec_call\<close> and \<open>spec_put\<close>, the formulas of the
  spec over the real numbers. They say what the formulas denote: parity, non-negative
  prices, monotonicity in spot and strike, equal prices at the money. They say nothing
  about the rounded values that the program computes from the same formulas.
\<close>

lemma bs_opt_max:
  assumes "0 < A" "0 < B" "0 < v"
  shows "A * norm_cdf d - B * norm_cdf (d - v) \<le> bs_opt A B v"
  unfolding bs_opt_def dmax_def by (rule bs_objective_max [OF assms])

lemma bs_opt_nonneg:
  assumes "0 < A" "0 < B" "0 < v"
  shows "0 \<le> bs_opt A B v"
proof (rule ccontr)
  assume "\<not> ?thesis"
  then have neg: "bs_opt A B v < 0" by simp
  define e where "e = - bs_opt A B v / B"
  have "0 < e"
    using neg assms(2) by (simp add: e_def field_simps)
  then obtain x where x: "\<forall>y\<le>x. norm_cdf y < e"
    using norm_cdf_near_zero by blast
  have "- (B * e) < - (B * norm_cdf x)"
    using x assms(2) by simp
  also have "\<dots> \<le> A * norm_cdf (x + v) - B * norm_cdf (x + v - v)"
    using assms(1) norm_cdf_pos [of "x + v"] by (simp add: less_imp_le)
  also have "\<dots> \<le> bs_opt A B v"
    by (rule bs_opt_max [OF assms])
  finally show False
    using assms(2) by (simp add: e_def)
qed

lemma bs_opt_mono_left:
  assumes "0 < A1" "A1 \<le> A2" "0 < B" "0 < v"
  shows "bs_opt A1 B v \<le> bs_opt A2 B v"
proof -
  have "bs_opt A1 B v \<le> A2 * norm_cdf (dmax A1 B v) - B * norm_cdf (dmax A1 B v - v)"
    unfolding bs_opt_def
    using assms(2) norm_cdf_pos [of "dmax A1 B v"] by (simp add: mult_right_mono less_imp_le)
  also have "\<dots> \<le> bs_opt A2 B v"
    using assms by (intro bs_opt_max) simp_all
  finally show ?thesis .
qed

lemma bs_opt_antimono_right:
  assumes "0 < A" "0 < B1" "B1 \<le> B2" "0 < v"
  shows "bs_opt A B2 v \<le> bs_opt A B1 v"
proof -
  have "bs_opt A B2 v \<le> A * norm_cdf (dmax A B2 v) - B1 * norm_cdf (dmax A B2 v - v)"
    unfolding bs_opt_def
    using assms(3) norm_cdf_pos [of "dmax A B2 v - v"] by (simp add: mult_right_mono less_imp_le)
  also have "\<dots> \<le> bs_opt A B1 v"
    using assms by (intro bs_opt_max) simp_all
  finally show ?thesis .
qed

lemma spec_d1_dmax:
  assumes "0 < S" "0 < K" "0 < T" "0 < sigma"
  shows "spec_d1 S K T r sigma = dmax S (K * exp (- r * T)) (sigma * sqrt T)"
proof -
  have "ln (S / (K * exp (- r * T))) = ln (S / K) + r * T"
    using assms by (simp add: ln_div ln_mult)
  moreover have "(sigma * sqrt T)\<^sup>2 = sigma\<^sup>2 * T"
    using assms by (simp add: power_mult_distrib)
  ultimately have "ln (S / (K * exp (- r * T))) + (sigma * sqrt T)\<^sup>2 / 2
      = ln (S / K) + (r + 0.5 * sigma\<^sup>2) * T"
    by (simp add: algebra_simps)
  then show ?thesis
    by (simp only: spec_d1_def dmax_def)
qed

lemma dmax_swap:
  assumes "0 < A" "0 < B" "0 < v"
  shows "dmax B A v = - (dmax A B v - v)"
proof -
  have "ln (B / A) = - ln (A / B)"
    using assms by (simp add: ln_div)
  then have "dmax B A v = (v\<^sup>2 / 2 - ln (A / B)) / v"
    by (simp add: dmax_def)
  also have "\<dots> = - (dmax A B v - v)"
    using assms(3) by (simp add: dmax_def field_simps power2_eq_square)
  finally show ?thesis .
qed

lemma spec_d2_dmax:
  assumes "0 < S" "0 < K" "0 < T" "0 < sigma"
  shows "- spec_d2 S K T r sigma = dmax (K * exp (- r * T)) S (sigma * sqrt T)"
proof -
  let ?B = "K * exp (- r * T)" and ?v = "sigma * sqrt T"
  have v: "0 < ?v" using assms by simp
  have B: "0 < ?B" using assms by simp
  have "dmax ?B S ?v = - (dmax S ?B ?v - ?v)"
    by (rule dmax_swap [OF assms(1) B v])
  then show ?thesis
    by (simp only: spec_d2_def spec_d1_dmax [OF assms])
qed

lemma spec_call_bs_opt:
  assumes "0 < S" "0 < K" "0 < T" "0 < sigma"
  shows "spec_call S K T r sigma = bs_opt S (K * exp (- r * T)) (sigma * sqrt T)"
  by (simp add: spec_call_def spec_d2_def spec_d1_dmax [OF assms] bs_opt_def)

lemma spec_put_bs_opt:
  assumes "0 < S" "0 < K" "0 < T" "0 < sigma"
  shows "spec_put S K T r sigma = bs_opt (K * exp (- r * T)) S (sigma * sqrt T)"
proof -
  have "- spec_d1 S K T r sigma = - spec_d2 S K T r sigma - sigma * sqrt T"
    by (simp add: spec_d2_def)
  then show ?thesis
    unfolding spec_put_def bs_opt_def spec_d2_dmax [OF assms, symmetric] by simp
qed

lemma spec_put_call_parity:
  "spec_call S K T r sigma - spec_put S K T r sigma = S - K * exp (- r * T)"
  by (simp add: spec_call_def spec_put_def norm_cdf_symmetric algebra_simps)

lemma spec_prices_nonnegative:
  assumes "0 < S" "0 < K" "0 < T" "0 < sigma"
  shows "0 \<le> spec_call S K T r sigma \<and> 0 \<le> spec_put S K T r sigma"
proof -
  have B: "0 < K * exp (- r * T)" using assms(2) by simp
  have v: "0 < sigma * sqrt T" using assms(3,4) by simp
  show ?thesis
    using bs_opt_nonneg [OF assms(1) B v] bs_opt_nonneg [OF B assms(1) v]
    by (simp only: spec_call_bs_opt [OF assms] spec_put_bs_opt [OF assms])
qed

lemma spec_prices_monotone_spot:
  assumes "0 < S1" "S1 \<le> S2" "0 < K" "0 < T" "0 < sigma"
  shows "spec_call S1 K T r sigma \<le> spec_call S2 K T r sigma \<and>
         spec_put S2 K T r sigma \<le> spec_put S1 K T r sigma"
proof -
  have S2: "0 < S2" using assms(1,2) by simp
  have B: "0 < K * exp (- r * T)" using assms(3) by simp
  have v: "0 < sigma * sqrt T" using assms(4,5) by simp
  show ?thesis
    using bs_opt_mono_left [OF assms(1,2) B v] bs_opt_antimono_right [OF B assms(1,2) v]
    by (simp only: spec_call_bs_opt [OF assms(1,3,4,5)] spec_call_bs_opt [OF S2 assms(3,4,5)]
        spec_put_bs_opt [OF assms(1,3,4,5)] spec_put_bs_opt [OF S2 assms(3,4,5)])
qed

lemma spec_prices_monotone_strike:
  assumes "0 < S" "0 < K1" "K1 \<le> K2" "0 < T" "0 < sigma"
  shows "spec_call S K2 T r sigma \<le> spec_call S K1 T r sigma \<and>
         spec_put S K1 T r sigma \<le> spec_put S K2 T r sigma"
proof -
  have K2: "0 < K2" using assms(2,3) by simp
  have B1: "0 < K1 * exp (- r * T)" using assms(2) by simp
  have le: "K1 * exp (- r * T) \<le> K2 * exp (- r * T)" using assms(3) by simp
  have v: "0 < sigma * sqrt T" using assms(4,5) by simp
  show ?thesis
    using bs_opt_antimono_right [OF assms(1) B1 le v] bs_opt_mono_left [OF B1 le assms(1) v]
    by (simp only: spec_call_bs_opt [OF assms(1,2,4,5)] spec_call_bs_opt [OF assms(1) K2 assms(4,5)]
        spec_put_bs_opt [OF assms(1,2,4,5)] spec_put_bs_opt [OF assms(1) K2 assms(4,5)])
qed

lemma spec_at_the_money:
  "spec_call S S T 0 sigma
     = S * (norm_cdf (spec_d1 S S T 0 sigma) - norm_cdf (spec_d2 S S T 0 sigma))"
  "spec_put S S T 0 sigma
     = S * (norm_cdf (spec_d1 S S T 0 sigma) - norm_cdf (spec_d2 S S T 0 sigma))"
  by (simp_all add: spec_call_def spec_put_def norm_cdf_symmetric algebra_simps)

section \<open>Properties of the pricer\<close>

lemma black_scholes_merton_expired:
  "T \<le> 0 \<Longrightarrow> black_scholes_merton S K T r sigma = expired_prices S K"
  by (simp add: black_scholes_merton_def branch_taken_def)

lemma expired_prices_cases:
  "expired_prices S K = (if S > K then Inr (S - K, 0) else Inr (0, K - S))"
  by (simp add: expired_prices_def)

text \<open>
  Claim C2. For every \<open>T \<le> 0\<close> the pricer returns the intrinsic values, whatever \<open>r\<close>
  and \<open>sigma\<close> are: \<open>(S - K, 0)\<close> when \<open>S > K\<close>, and \<open>(0, K - S)\<close> when \<open>S \<le> K\<close>, so
  the tie \<open>S = K\<close> goes to the put side.
\<close>

theorem expired_intrinsic_value:
  assumes "T \<le> 0"
  shows "(S > K \<longrightarrow> black_scholes_merton S K T r sigma = Inr (S - K, 0)) \<and>
         (S \<le> K \<longrightarrow> black_scholes_merton S K T r sigma = Inr (0, K - S))"
  using assms by (simp add: black_scholes_merton_expired expired_prices_cases)

text \<open>The theorem at a concrete input.\<close>

theorem expired_intrinsic_value_witness:
  "(0::real) \<le> 0 \<and>
   black_scholes_merton 110 100 0 (1 / 20) (1 / 5) = Inr (10, 0) \<and>
   black_scholes_merton 90 100 0 (1 / 20) (1 / 5) = Inr (0, 10) \<and>
   black_scholes_merton 100 100 0 (1 / 20) (1 / 5) = Inr (0, 0)"
  using expired_intrinsic_value [where T = 0 and S = 110 and K = 100 and r = "1 / 20" and sigma = "1 / 5"]
    expired_intrinsic_value [where T = 0 and S = 90 and K = 100 and r = "1 / 20" and sigma = "1 / 5"]
    expired_intrinsic_value [where T = 0 and S = 100 and K = 100 and r = "1 / 20" and sigma = "1 / 5"]
  by simp

text \<open>
  Claim C10. In the degenerate branch parity is undiscounted: for every \<open>T \<le> 0\<close> the
  pricer returns a pair \<open>(call, put)\<close> with \<open>call - put = S - K\<close>, with no factor
  \<open>exp (- r * T)\<close>, and the pair is the same for every other \<open>r'\<close> and \<open>sigma'\<close>.
\<close>

theorem expired_parity_undiscounted:
  assumes "T \<le> 0"
  shows "\<exists>call put. black_scholes_merton S K T r sigma = Inr (call, put) \<and>
           call - put = S - K \<and>
           black_scholes_merton S K T r' sigma' = Inr (call, put)"
  using assms by (simp add: black_scholes_merton_expired expired_prices_cases)

text \<open>The theorem at a concrete input.\<close>

theorem expired_parity_undiscounted_witness:
  "(- 1::real) \<le> 0 \<and>
   (\<exists>call put. black_scholes_merton 110 100 (- 1) (1 / 20) (1 / 5) = Inr (call, put) \<and>
      call - put = 110 - 100 \<and>
      black_scholes_merton 110 100 (- 1) (1 / 2) 3 = Inr (call, put))"
proof -
  have h: "(- 1::real) \<le> 0" by simp
  from h expired_parity_undiscounted [OF h, of 110 100 "1 / 20" "1 / 5" "1 / 2" 3]
  show ?thesis by (intro conjI)
qed

section \<open>Properties of the interactive shell\<close>

lemma get_user_input_rejected:
  "rejected value_type min_val line \<Longrightarrow>
   get_user_input prompt value_type min_val str (line # inp) out
     = get_user_input prompt value_type min_val str inp
         (out @ [prompt, error_message value_type min_val str line])"
  by (auto simp: rejected_def error_message_def split: sum.splits)

lemma get_user_input_accepted:
  "value_type line = Inr v \<Longrightarrow> \<not> v < min_val \<Longrightarrow>
   get_user_input prompt value_type min_val str (line # inp) out = (Inr v, inp, out @ [prompt])"
  by simp

lemma get_user_input_skips:
  "list_all (rejected value_type min_val) pre \<Longrightarrow>
   get_user_input prompt value_type min_val str (pre @ inp) out
     = get_user_input prompt value_type min_val str inp
         (out @ reprompts prompt value_type min_val str pre)"
proof (induction pre arbitrary: out)
  case Nil
  then show ?case by (simp add: reprompts_def)
next
  case (Cons line pre)
  then have "rejected value_type min_val line" "list_all (rejected value_type min_val) pre"
    by simp_all
  then show ?case
    using Cons.IH [of "out @ [prompt, error_message value_type min_val str line]"]
    by (simp add: get_user_input_rejected reprompts_def del: get_user_input.simps)
qed

lemma get_user_input_returns:
  "get_user_input prompt value_type min_val str inp out = (Inr v, rest, out') \<Longrightarrow>
   \<exists>pre line. inp = pre @ line # rest \<and> list_all (rejected value_type min_val) pre \<and>
     value_type line = Inr v \<and> \<not> v < min_val \<and>
     out' = out @ reprompts prompt value_type min_val str pre @ [prompt]"
proof (induction inp arbitrary: out)
  case Nil
  then show ?case by simp
next
  case (Cons l ls)
  show ?case
  proof (cases "rejected value_type min_val l")
    case True
    with Cons.prems
    have "get_user_input prompt value_type min_val str ls
            (out @ [prompt, error_message value_type min_val str l]) = (Inr v, rest, out')"
      by (simp only: get_user_input_rejected)
    from Cons.IH [OF this] obtain pre line where
      "ls = pre @ line # rest" "list_all (rejected value_type min_val) pre"
      "value_type line = Inr v" "\<not> v < min_val"
      "out' = (out @ [prompt, error_message value_type min_val str l])
                @ reprompts prompt value_type min_val str pre @ [prompt]"
      by blast
    with True have "l # ls = (l # pre) @ line # rest \<and>
        list_all (rejected value_type min_val) (l # pre) \<and>
        value_type line = Inr v \<and> \<not> v < min_val \<and>
        out' = out @ reprompts prompt value_type min_val str (l # pre) @ [prompt]"
      by (simp add: reprompts_def)
    then show ?thesis by blast
  next
    case False
    with Cons.prems have "value_type l = Inr v \<and> \<not> v < min_val \<and> rest = ls \<and> out' = out @ [prompt]"
      by (auto simp: rejected_def split: sum.splits if_splits)
    then have "l # ls = [] @ l # rest \<and> list_all (rejected value_type min_val) [] \<and>
        value_type l = Inr v \<and> \<not> v < min_val \<and>
        out' = out @ reprompts prompt value_type min_val str [] @ [prompt]"
      by (simp add: reprompts_def)
    then show ?thesis by blast
  qed
qed

lemma get_user_input_iff:
  "get_user_input prompt value_type min_val str inp out = (Inr v, rest, out') \<longleftrightarrow>
   (\<exists>pre line. inp = pre @ line # rest \<and> list_all (rejected value_type min_val) pre \<and>
     value_type line = Inr v \<and> \<not> v < min_val \<and>
     out' = out @ reprompts prompt value_type min_val str pre @ [prompt])"
proof
  assume "get_user_input prompt value_type min_val str inp out = (Inr v, rest, out')"
  then show "\<exists>pre line. inp = pre @ line # rest \<and> list_all (rejected value_type min_val) pre \<and>
     value_type line = Inr v \<and> \<not> v < min_val \<and>
     out' = out @ reprompts prompt value_type min_val str pre @ [prompt]"
    by (rule get_user_input_returns)
next
  assume "\<exists>pre line. inp = pre @ line # rest \<and> list_all (rejected value_type min_val) pre \<and>
     value_type line = Inr v \<and> \<not> v < min_val \<and>
     out' = out @ reprompts prompt value_type min_val str pre @ [prompt]"
  then obtain pre line where *: "inp = pre @ line # rest"
    "list_all (rejected value_type min_val) pre" "value_type line = Inr v" "\<not> v < min_val"
    "out' = out @ reprompts prompt value_type min_val str pre @ [prompt]"
    by blast
  show "get_user_input prompt value_type min_val str inp out = (Inr v, rest, out')"
    unfolding *(1,5) get_user_input_skips [OF *(2)]
    using *(3,4) by simp
qed

lemma get_user_input_min:
  "get_user_input prompt value_type min_val str inp out = (Inr v, rest, out') \<Longrightarrow> \<not> v < min_val"
  by (drule get_user_input_returns) blast

lemma io_bind_Inr_elim:
  assumes "io_bind m f inp out = (Inr w, inp2, out2)"
  obtains v inp1 out1 where "m inp out = (Inr v, inp1, out1)" "f v inp1 out1 = (Inr w, inp2, out2)"
  using assms by (auto simp: io_bind_def split: prod.splits sum.splits)

lemma get_inputs_sound:
  assumes "get_inputs b inp out = (Inr (S, K, T, r, sigma), rest, out')"
  shows "0 \<le> S \<and> 0 \<le> K \<and> 0.0001 \<le> T \<and> - 0.5 \<le> r \<and> 0.0001 \<le> sigma"
proof -
  from assms obtain S' i1 o1 K' i2 o2 T' i3 o3 r' i4 o4 sigma' i5 o5 where
    S: "get_user_input ''Current Stock Price (S): $'' (py_float b) 0.0 (py_str b) inp out
          = (Inr S', i1, o1)" and
    K: "get_user_input ''Option Strike Price (K): $'' (py_float b) 0.0 (py_str b) i1 o1
          = (Inr K', i2, o2)" and
    T: "get_user_input ''Time to Expiration (T, in years, e.g., 0.5): ''
          (py_float b) 0.0001 (py_str b) i2 o2 = (Inr T', i3, o3)" and
    r: "get_user_input ''Risk-Free Rate (r, decimal, e.g., 0.05 for 5%): ''
          (py_float b) (- 0.5) (py_str b) i3 o3 = (Inr r', i4, o4)" and
    sigma: "get_user_input ''Volatility (sigma, decimal, e.g., 0.30 for 30%): ''
          (py_float b) 0.0001 (py_str b) i4 o4 = (Inr sigma', i5, o5)" and
    ret: "io_return (S', K', T', r', sigma') i5 o5 = (Inr (S, K, T, r, sigma), rest, out')"
    unfolding get_inputs_def by (elim io_bind_Inr_elim) blast
  from ret have eq: "S' = S" "K' = K" "T' = T" "r' = r" "sigma' = sigma"
    by (simp_all add: io_return_def)
  show ?thesis
    using get_user_input_min [OF S] get_user_input_min [OF K] get_user_input_min [OF T]
      get_user_input_min [OF r] get_user_input_min [OF sigma]
    unfolding eq by (simp add: not_less)
qed

lemma get_inputs_accepts:
  assumes "py_float b lS = Inr S" "py_float b lK = Inr K" "py_float b lT = Inr T"
    "py_float b lr = Inr r" "py_float b lsigma = Inr sigma"
    "0 \<le> S" "0 \<le> K" "0.0001 \<le> T" "- 0.5 \<le> r" "0.0001 \<le> sigma"
  shows "get_inputs b (lS # lK # lT # lr # lsigma # rest) out =
    (Inr (S, K, T, r, sigma), rest,
     out @ [''Current Stock Price (S): $'', ''Option Strike Price (K): $'',
            ''Time to Expiration (T, in years, e.g., 0.5): '',
            ''Risk-Free Rate (r, decimal, e.g., 0.05 for 5%): '',
            ''Volatility (sigma, decimal, e.g., 0.30 for 30%): ''])"
  using assms by (simp add: get_inputs_def io_bind_def io_return_def not_less [symmetric])

lemma branch_taken_floor: "0.0001 \<le> T \<Longrightarrow> branch_taken T = Standard"
  by (simp add: branch_taken_def)

lemma main_eq_main_standard: "main b inp out = main_standard b inp out"
proof -
  have "io_bind (get_inputs b) (\<lambda>(S, K, T, r, sigma).
          io_bind (\<lambda>inp out. (black_scholes_merton S K T r sigma, inp, out)) (\<lambda>(call_price, put_price).
          print_results b S K T r sigma call_price put_price)) inp0 out0
      = io_bind (get_inputs b) (\<lambda>(S, K, T, r, sigma).
          io_bind (\<lambda>inp out. (formula_prices S K T r sigma, inp, out)) (\<lambda>(call_price, put_price).
          print_results b S K T r sigma call_price put_price)) inp0 out0" for inp0 out0
  proof (cases "get_inputs b inp0 out0")
    case (fields res inp1 out1)
    show ?thesis
    proof (cases res)
      case (Inl e)
      with fields show ?thesis by (simp add: io_bind_def)
    next
      case (Inr v)
      obtain S K T r sigma where v: "v = (S, K, T, r, sigma)"
        by (cases v) auto
      from fields Inr v have "0.0001 \<le> T"
        using get_inputs_sound [of b inp0 out0 S K T r sigma inp1 out1] by simp
      then have "black_scholes_merton S K T r sigma = formula_prices S K T r sigma"
        by (simp add: black_scholes_merton_def branch_taken_floor)
      with fields Inr v show ?thesis by (simp add: io_bind_def)
    qed
  qed
  then show ?thesis
    unfolding main_def main_standard_def io_bind_def [of "py_print _"] by (simp add: py_print_def)
qed

lemma pricer_zero_spot:
  "0 < K \<Longrightarrow> 0 < T \<Longrightarrow> black_scholes_merton 0 K T r sigma = Inl ValueError"
  by (simp add: black_scholes_merton_def branch_taken_def formula_prices_def bind_err_def
      py_truediv_def math_log_def)

lemma main_reads_then_prices:
  assumes "get_inputs b inp (out @ [CHR 0x0A # ''--- Black-Scholes-Merton European Option Pricer ---'' @ [CHR 0x0A],
      ''Please enter the required parameters.'' @ [CHR 0x0A]]) = (Inr (S, K, T, r, sigma), rest, out')"
    and "black_scholes_merton S K T r sigma = Inl e"
  shows "main b inp out = (Inl e, rest, out')"
  using assms by (simp add: main_def io_bind_def py_print_def)

text \<open>
  Claim C7. Input validation. \<^verbatim>\<open>get_user_input\<close> returns \<open>v\<close> exactly when the entered
  lines are a run of rejected lines, then a line that converts to \<open>v\<close> with \<open>v\<close> not below
  \<open>min_val\<close>: it returns the first such value, and each rejected line before it (one
  that fails to convert, or converts to a value strictly below \<open>min_val\<close>) is answered
  with an error message and a new prompt and is not returned. In \<^verbatim>\<open>main\<close> the minimums
  are \<open>0\<close> for \<open>S\<close> and \<open>K\<close>, \<open>0.0001\<close> for \<open>T\<close>, \<open>- 0.5\<close> for \<open>r\<close> and \<open>0.0001\<close> for
  \<open>sigma\<close>: the five values it reads are never below them, and five lines that convert
  to values not below them are read one per prompt.
\<close>

theorem user_input_validation:
  "(get_user_input prompt value_type min_val str inp out = (Inr v, rest, out') \<longleftrightarrow>
      (\<exists>pre line. inp = pre @ line # rest \<and> list_all (rejected value_type min_val) pre \<and>
         value_type line = Inr v \<and> \<not> v < min_val \<and>
         out' = out @ reprompts prompt value_type min_val str pre @ [prompt])) \<and>
   (get_inputs b inp0 out0 = (Inr (S, K, T, r, sigma), rest0, out0') \<longrightarrow>
      0 \<le> S \<and> 0 \<le> K \<and> 0.0001 \<le> T \<and> - 0.5 \<le> r \<and> 0.0001 \<le> sigma) \<and>
   (py_float b lS = Inr S1 \<and> py_float b lK = Inr K1 \<and> py_float b lT = Inr T1 \<and>
    py_float b lr = Inr r1 \<and> py_float b lsigma = Inr sigma1 \<and>
    0 \<le> S1 \<and> 0 \<le> K1 \<and> 0.0001 \<le> T1 \<and> - 0.5 \<le> r1 \<and> 0.0001 \<le> sigma1 \<longrightarrow>
      get_inputs b (lS # lK # lT # lr # lsigma # rest1) out1 =
        (Inr (S1, K1, T1, r1, sigma1), rest1,
         out1 @ [''Current Stock Price (S): $'', ''Option Strike Price (K): $'',
                 ''Time to Expiration (T, in years, e.g., 0.5): '',
                 ''Risk-Free Rate (r, decimal, e.g., 0.05 for 5%): '',
                 ''Volatility (sigma, decimal, e.g., 0.30 for 30%): '']))"
proof (intro conjI impI)
  show "get_user_input prompt value_type min_val str inp out = (Inr v, rest, out') \<longleftrightarrow>
      (\<exists>pre line. inp = pre @ line # rest \<and> list_all (rejected value_type min_val) pre \<and>
         value_type line = Inr v \<and> \<not> v < min_val \<and>
         out' = out @ reprompts prompt value_type min_val str pre @ [prompt])"
    by (rule get_user_input_iff)
next
  assume "get_inputs b inp0 out0 = (Inr (S, K, T, r, sigma), rest0, out0')"
  then have "0 \<le> S \<and> 0 \<le> K \<and> 0.0001 \<le> T \<and> - 0.5 \<le> r \<and> 0.0001 \<le> sigma"
    by (rule get_inputs_sound)
  then show "0 \<le> S" "0 \<le> K" "0.0001 \<le> T" "- 0.5 \<le> r" "0.0001 \<le> sigma"
    by simp_all
next
  assume "py_float b lS = Inr S1 \<and> py_float b lK = Inr K1 \<and> py_float b lT = Inr T1 \<and>
    py_float b lr = Inr r1 \<and> py_float b lsigma = Inr sigma1 \<and>
    0 \<le> S1 \<and> 0 \<le> K1 \<and> 0.0001 \<le> T1 \<and> - 0.5 \<le> r1 \<and> 0.0001 \<le> sigma1"
  then show "get_inputs b (lS # lK # lT # lr # lsigma # rest1) out1 =
        (Inr (S1, K1, T1, r1, sigma1), rest1,
         out1 @ [''Current Stock Price (S): $'', ''Option Strike Price (K): $'',
                 ''Time to Expiration (T, in years, e.g., 0.5): '',
                 ''Risk-Free Rate (r, decimal, e.g., 0.05 for 5%): '',
                 ''Volatility (sigma, decimal, e.g., 0.30 for 30%): ''])"
    by (elim conjE) (rule get_inputs_accepts)
qed

text \<open>The theorem at a concrete input.\<close>

theorem user_input_validation_witness:
  "get_user_input ''T: '' example_float 0.0001 (\<lambda>x. ''min'') [''abc'', ''0'', ''0.2'', ''next''] []
     = (Inr 0.2, [''next''],
        [''T: '', ''Error: Invalid input. Please enter a number.'' @ [CHR 0x0A],
         ''T: '', ''Error: Value must be at least min.'' @ [CHR 0x0A],
         ''T: '']) \<and>
   get_inputs example_builtins [''0'', ''100'', ''0.0001'', ''-0.5'', ''0.0001'', ''next''] []
     = (Inr (0, 100, 0.0001, - 0.5, 0.0001), [''next''],
        [''Current Stock Price (S): $'', ''Option Strike Price (K): $'',
         ''Time to Expiration (T, in years, e.g., 0.5): '',
         ''Risk-Free Rate (r, decimal, e.g., 0.05 for 5%): '',
         ''Volatility (sigma, decimal, e.g., 0.30 for 30%): ''])"
proof
  have "\<exists>pre line. [''abc'', ''0'', ''0.2'', ''next''] = pre @ line # [''next''] \<and>
      list_all (rejected example_float 0.0001) pre \<and>
      example_float line = Inr 0.2 \<and> \<not> (0.2::real) < 0.0001 \<and>
      [''T: '', ''Error: Invalid input. Please enter a number.'' @ [CHR 0x0A],
       ''T: '', ''Error: Value must be at least min.'' @ [CHR 0x0A], ''T: '']
        = [] @ reprompts ''T: '' example_float 0.0001 (\<lambda>x. ''min'') pre @ [''T: '']"
    by (rule exI [of _ "[''abc'', ''0'']"], rule exI [of _ "''0.2''"])
       (simp add: rejected_def example_float_def reprompts_def error_message_def)
  then show "get_user_input ''T: '' example_float 0.0001 (\<lambda>x. ''min'') [''abc'', ''0'', ''0.2'', ''next''] []
     = (Inr 0.2, [''next''],
        [''T: '', ''Error: Invalid input. Please enter a number.'' @ [CHR 0x0A],
         ''T: '', ''Error: Value must be at least min.'' @ [CHR 0x0A],
         ''T: ''])"
    by (rule user_input_validation [THEN conjunct1, THEN iffD2])
next
  have "py_float example_builtins ''0'' = Inr 0 \<and> py_float example_builtins ''100'' = Inr 100 \<and>
    py_float example_builtins ''0.0001'' = Inr 0.0001 \<and>
    py_float example_builtins ''-0.5'' = Inr (- 0.5) \<and>
    py_float example_builtins ''0.0001'' = Inr 0.0001 \<and>
    (0::real) \<le> 0 \<and> (0::real) \<le> 100 \<and> (0.0001::real) \<le> 0.0001 \<and> - 0.5 \<le> (- 0.5::real) \<and>
    (0.0001::real) \<le> 0.0001"
    by (simp add: example_builtins_def example_float_def)
  then show "get_inputs example_builtins [''0'', ''100'', ''0.0001'', ''-0.5'', ''0.0001'', ''next''] []
     = (Inr (0, 100, 0.0001, - 0.5, 0.0001), [''next''],
        [''Current Stock Price (S): $'', ''Option Strike Price (K): $'',
         ''Time to Expiration (T, in years, e.g., 0.5): '',
         ''Risk-Free Rate (r, decimal, e.g., 0.05 for 5%): '',
         ''Volatility (sigma, decimal, e.g., 0.30 for 30%): ''])"
    using user_input_validation [THEN conjunct2, THEN conjunct2, rule_format,
        of example_builtins "''0''" 0 "''100''" 100 "''0.0001''" "0.0001" "''-0.5''" "- 0.5"
           "''0.0001''" "0.0001" "[''next'']" "[]"]
    by simp
qed

text \<open>
  Claim C8. For every \<open>T \<ge> 0.0001\<close>, the minimum the shell enforces, the pricer takes
  its standard branch. So the degenerate branch is not reachable through the shell: the
  \<open>T\<close> that \<^verbatim>\<open>main\<close> reads always selects the standard branch, and \<^verbatim>\<open>main\<close> is the
  same program when the pricer is replaced by its standard branch. A direct call with
  \<open>T \<le> 0\<close> takes the degenerate branch.
\<close>

theorem degenerate_branch_unreachable_from_shell:
  "(0.0001 \<le> T \<longrightarrow>
      branch_taken T = Standard \<and>
      black_scholes_merton S K T r sigma = formula_prices S K T r sigma) \<and>
   (get_inputs b inp out = (Inr (S1, K1, T1, r1, sigma1), rest, out') \<longrightarrow>
      branch_taken T1 = Standard) \<and>
   main b inp out = main_standard b inp out \<and>
   (T2 \<le> 0 \<longrightarrow>
      branch_taken T2 = Degenerate \<and>
      black_scholes_merton S2 K2 T2 r2 sigma2 = expired_prices S2 K2)"
proof (intro conjI impI)
  assume "0.0001 \<le> T"
  then show "branch_taken T = Standard"
    by (rule branch_taken_floor)
  then show "black_scholes_merton S K T r sigma = formula_prices S K T r sigma"
    by (simp add: black_scholes_merton_def)
next
  assume "get_inputs b inp out = (Inr (S1, K1, T1, r1, sigma1), rest, out')"
  then have "0.0001 \<le> T1"
    by (auto dest: get_inputs_sound)
  then show "branch_taken T1 = Standard"
    by (rule branch_taken_floor)
next
  show "main b inp out = main_standard b inp out"
    by (rule main_eq_main_standard)
next
  assume "T2 \<le> 0"
  then show "branch_taken T2 = Degenerate"
    by (simp add: branch_taken_def)
  then show "black_scholes_merton S2 K2 T2 r2 sigma2 = expired_prices S2 K2"
    by (simp add: black_scholes_merton_def)
qed

text \<open>The theorem at a concrete input.\<close>

theorem degenerate_branch_unreachable_from_shell_witness:
  "(0.0001::real) \<le> 0.0001 \<and> branch_taken 0.0001 = Standard \<and>
   black_scholes_merton 100 100 0.0001 0.05 0.2 = formula_prices 100 100 0.0001 0.05 0.2 \<and>
   (0::real) \<le> 0 \<and> branch_taken 0 = Degenerate \<and>
   black_scholes_merton 110 100 0 0.05 0.2 = Inr (10, 0)"
  using degenerate_branch_unreachable_from_shell
    [where T = "0.0001" and S = 100 and K = 100 and r = "0.05" and sigma = "0.2" and
       ?T2.0 = 0 and ?S2.0 = 110 and ?K2.0 = 100 and ?r2.0 = "0.05" and ?sigma2.0 = "0.2"]
  by (simp add: expired_prices_def)

text \<open>
  Claim C9. The shell accepts \<open>S = 0\<close>, its minimum for \<open>S\<close> being \<open>0.0\<close> with only values
  strictly below rejected; and for \<open>S = 0\<close>, \<open>K > 0\<close> and \<open>T > 0\<close> the pricer returns no
  pair: \<^verbatim>\<open>math.log\<close> raises ValueError. So \<^verbatim>\<open>main\<close>, on five accepted lines of which
  the first is \<open>0\<close>, ends with that exception and prints nothing of the report.
\<close>

theorem zero_spot_accepted_then_log_fails:
  "(value_type line = Inr 0 \<longrightarrow>
      get_user_input prompt value_type (0.0::real) str (line # inp) out = (Inr 0, inp, out @ [prompt])) \<and>
   (0 < K \<and> 0 < T \<longrightarrow> black_scholes_merton 0 K T r sigma = Inl ValueError) \<and>
   (py_float b lS = Inr 0 \<and> py_float b lK = Inr K1 \<and> py_float b lT = Inr T1 \<and>
    py_float b lr = Inr r1 \<and> py_float b lsigma = Inr sigma1 \<and>
    0 < K1 \<and> 0.0001 \<le> T1 \<and> - 0.5 \<le> r1 \<and> 0.0001 \<le> sigma1 \<longrightarrow>
      main b (lS # lK # lT # lr # lsigma # rest) out1 =
        (Inl ValueError, rest,
         out1 @ [CHR 0x0A # ''--- Black-Scholes-Merton European Option Pricer ---'' @ [CHR 0x0A],
                 ''Please enter the required parameters.'' @ [CHR 0x0A],
                 ''Current Stock Price (S): $'', ''Option Strike Price (K): $'',
                 ''Time to Expiration (T, in years, e.g., 0.5): '',
                 ''Risk-Free Rate (r, decimal, e.g., 0.05 for 5%): '',
                 ''Volatility (sigma, decimal, e.g., 0.30 for 30%): '']))"
proof (intro conjI impI)
  assume "value_type line = Inr 0"
  then show "get_user_input prompt value_type (0.0::real) str (line # inp) out
      = (Inr 0, inp, out @ [prompt])"
    by simp
next
  assume "0 < K \<and> 0 < T"
  then show "black_scholes_merton 0 K T r sigma = Inl ValueError"
    by (simp add: pricer_zero_spot)
next
  assume a: "py_float b lS = Inr 0 \<and> py_float b lK = Inr K1 \<and> py_float b lT = Inr T1 \<and>
    py_float b lr = Inr r1 \<and> py_float b lsigma = Inr sigma1 \<and>
    0 < K1 \<and> 0.0001 \<le> T1 \<and> - 0.5 \<le> r1 \<and> 0.0001 \<le> sigma1"
  then have "0 < K1" "0 < T1" by simp_all
  then have fails: "black_scholes_merton 0 K1 T1 r1 sigma1 = Inl ValueError"
    by (rule pricer_zero_spot)
  from a have "get_inputs b (lS # lK # lT # lr # lsigma # rest)
      (out1 @ [CHR 0x0A # ''--- Black-Scholes-Merton European Option Pricer ---'' @ [CHR 0x0A],
               ''Please enter the required parameters.'' @ [CHR 0x0A]])
    = (Inr (0, K1, T1, r1, sigma1), rest,
       (out1 @ [CHR 0x0A # ''--- Black-Scholes-Merton European Option Pricer ---'' @ [CHR 0x0A],
               ''Please enter the required parameters.'' @ [CHR 0x0A]])
        @ [''Current Stock Price (S): $'', ''Option Strike Price (K): $'',
           ''Time to Expiration (T, in years, e.g., 0.5): '',
           ''Risk-Free Rate (r, decimal, e.g., 0.05 for 5%): '',
           ''Volatility (sigma, decimal, e.g., 0.30 for 30%): ''])"
    by (intro get_inputs_accepts) simp_all
  from main_reads_then_prices [OF this fails]
  show "main b (lS # lK # lT # lr # lsigma # rest) out1 =
        (Inl ValueError, rest,
         out1 @ [CHR 0x0A # ''--- Black-Scholes-Merton European Option Pricer ---'' @ [CHR 0x0A],
                 ''Please enter the required parameters.'' @ [CHR 0x0A],
                 ''Current Stock Price (S): $'', ''Option Strike Price (K): $'',
                 ''Time to Expiration (T, in years, e.g., 0.5): '',
                 ''Risk-Free Rate (r, decimal, e.g., 0.05 for 5%): '',
                 ''Volatility (sigma, decimal, e.g., 0.30 for 30%): ''])"
    by simp
qed

text \<open>The theorem at a concrete input.\<close>

theorem zero_spot_accepted_then_log_fails_witness:
  "get_user_input ''Current Stock Price (S): $'' example_float (0.0::real) (\<lambda>x. ''min'') [''0'', ''100''] []
     = (Inr 0, [''100''], [''Current Stock Price (S): $'']) \<and>
   black_scholes_merton 0 100 0.2 0.05 0.2 = Inl ValueError \<and>
   main example_builtins [''0'', ''100'', ''0.2'', ''0.05'', ''0.2''] [] =
     (Inl ValueError, [],
      [CHR 0x0A # ''--- Black-Scholes-Merton European Option Pricer ---'' @ [CHR 0x0A],
       ''Please enter the required parameters.'' @ [CHR 0x0A],
       ''Current Stock Price (S): $'', ''Option Strike Price (K): $'',
       ''Time to Expiration (T, in years, e.g., 0.5): '',
       ''Risk-Free Rate (r, decimal, e.g., 0.05 for 5%): '',
       ''Volatility (sigma, decimal, e.g., 0.30 for 30%): ''])"
proof (intro conjI)
  have "example_float ''0'' = Inr 0"
    by (simp add: example_float_def)
  then show "get_user_input ''Current Stock Price (S): $'' example_float (0.0::real) (\<lambda>x. ''min'')
      [''0'', ''100''] [] = (Inr 0, [''100''], [''Current Stock Price (S): $''])"
    using zero_spot_accepted_then_log_fails [THEN conjunct1, rule_format,
        of example_float "''0''" "''Current Stock Price (S): $''" "\<lambda>x. ''min''" "[''100'']" "[]"]
    by simp
next
  have "(0::real) < 100 \<and> (0::real) < 0.2" by simp
  then show "black_scholes_merton 0 100 0.2 0.05 0.2 = Inl ValueError"
    by (rule zero_spot_accepted_then_log_fails [THEN conjunct2, THEN conjunct1, rule_format])
next
  have "py_float example_builtins ''0'' = Inr 0 \<and> py_float example_builtins ''100'' = Inr 100 \<and>
    py_float example_builtins ''0.2'' = Inr 0.2 \<and> py_float example_builtins ''0.05'' = Inr 0.05 \<and>
    py_float example_builtins ''0.2'' = Inr 0.2 \<and>
    (0::real) < 100 \<and> (0.0001::real) \<le> 0.2 \<and> - 0.5 \<le> (0.05::real) \<and> (0.0001::real) \<le> 0.2"
    by (simp add: example_builtins_def example_float_def)
  from zero_spot_accepted_then_log_fails [THEN conjunct2, THEN conjunct2, rule_format, OF this,
      of "[]" "[]"]
  show "main example_builtins [''0'', ''100'', ''0.2'', ''0.05'', ''0.2''] [] =
     (Inl ValueError, [],
      [CHR 0x0A # ''--- Black-Scholes-Merton European Option Pricer ---'' @ [CHR 0x0A],
       ''Please enter the required parameters.'' @ [CHR 0x0A],
       ''Current Stock Price (S): $'', ''Option Strike Price (K): $'',
       ''Time to Expiration (T, in years, e.g., 0.5): '',
       ''Risk-Free Rate (r, decimal, e.g., 0.05 for 5%): '',
       ''Volatility (sigma, decimal, e.g., 0.30 for 30%): ''])"
    by simp
qed

end
